theory Spec2Isabelle
  imports Main "HOL-Library.Sublist"
begin

section \<open>JSON values as Python sees them\<close>

text \<open>
  The bridge (\<^verbatim>\<open>bridge.py\<close>) handles JSON values only through Python's duck typing:
  \<^verbatim>\<open>.get\<close>, truthiness, \<^verbatim>\<open>==\<close>, slicing and iteration. A value decoded from JSON is
  \<^verbatim>\<open>None\<close>, a bool, an int (unbounded), a float, a str, a list or a dict. A finite
  float is kept as mantissa and exponent (\<open>m * 2 ^ e\<close>); the bridge never computes
  with it, it only tests it for truth and hands it on.
\<close>

datatype json =
    JNull
  | JBool bool
  | JInt int
  | JFloat int int
  | JStr string
  | JArr "json list"
  | JObj "(string \<times> json) list"

text \<open>
  Exceptions the code can raise. \<open>DuckTypeError\<close> stands for the \<^verbatim>\<open>AttributeError\<close> or
  \<^verbatim>\<open>TypeError\<close> Python raises when a method or operator is applied to a value of the
  wrong JSON type (\<^verbatim>\<open>None.get\<close>, \<^verbatim>\<open>"error" in 5\<close>, \<^verbatim>\<open>"\n".join([1])\<close>).
  \<open>RequestException\<close> is what \<^verbatim>\<open>requests.post\<close> raises when the transport fails
  (connection refused, timeout); \<open>HTTPError\<close> is raised by \<^verbatim>\<open>raise_for_status\<close>;
  \<open>JSONDecodeError\<close> by \<^verbatim>\<open>resp.json()\<close>; \<open>FormatError\<close> by a format specification
  applied to a value it does not accept.
\<close>

datatype pyerr =
    DuckTypeError
  | RequestException
  | HTTPError nat
  | JSONDecodeError
  | FormatError

text \<open>Python truth value testing (\<^verbatim>\<open>if x\<close>, \<^verbatim>\<open>x or y\<close>, \<^verbatim>\<open>not x\<close>).\<close>

fun truthy :: "json \<Rightarrow> bool" where
  "truthy JNull = False"
| "truthy (JBool b) = b"
| "truthy (JInt n) = (n \<noteq> 0)"
| "truthy (JFloat m e) = (m \<noteq> 0)"
| "truthy (JStr s) = (s \<noteq> [])"
| "truthy (JArr xs) = (xs \<noteq> [])"
| "truthy (JObj kvs) = (kvs \<noteq> [])"

text \<open>\<^verbatim>\<open>d.get(k, default)\<close>: only a dict has \<^verbatim>\<open>get\<close>.\<close>

fun dict_get :: "json \<Rightarrow> string \<Rightarrow> json \<Rightarrow> pyerr + json" where
  "dict_get (JObj kvs) k d = Inr (case map_of kvs k of None \<Rightarrow> d | Some v \<Rightarrow> v)"
| "dict_get j k d = Inl DuckTypeError"

text \<open>\<^verbatim>\<open>d[k] = v\<close> on a dict literal: replaces the entry or appends a new one.\<close>

fun dict_set :: "(string \<times> json) list \<Rightarrow> string \<Rightarrow> json \<Rightarrow> (string \<times> json) list" where
  "dict_set [] k v = [(k, v)]"
| "dict_set ((k', v') # kvs) k v =
     (if k' = k then (k, v) # kvs else (k', v') # dict_set kvs k v)"

text \<open>\<^verbatim>\<open>for c in x\<close>: a list yields its elements, a dict its keys, a str its characters.\<close>

fun py_iter :: "json \<Rightarrow> pyerr + json list" where
  "py_iter (JArr xs) = Inr xs"
| "py_iter (JObj kvs) = Inr (map (\<lambda>kv. JStr (fst kv)) kvs)"
| "py_iter (JStr s) = Inr (map (\<lambda>c. JStr [c]) s)"
| "py_iter j = Inl DuckTypeError"

text \<open>\<^verbatim>\<open>for h in x[:3]\<close>: a list or a str can be sliced, nothing else the decoder returns.\<close>

fun slice3 :: "json \<Rightarrow> pyerr + json list" where
  "slice3 (JArr xs) = Inr (take 3 xs)"
| "slice3 (JStr s) = Inr (map (\<lambda>c. JStr [c]) (take 3 s))"
| "slice3 j = Inl DuckTypeError"

text \<open>\<^verbatim>\<open>sep.join(xs)\<close> on strings.\<close>

fun py_join :: "string \<Rightarrow> string list \<Rightarrow> string" where
  "py_join sep [] = []"
| "py_join sep [x] = x"
| "py_join sep (x # y # ys) = x @ sep @ py_join sep (y # ys)"

text \<open>\<^verbatim>\<open>sep.join(xs)\<close> on JSON values: every item must be a str.\<close>

fun as_strs :: "json list \<Rightarrow> pyerr + string list" where
  "as_strs [] = Inr []"
| "as_strs (JStr s # js) = (case as_strs js of Inl e \<Rightarrow> Inl e | Inr ss \<Rightarrow> Inr (s # ss))"
| "as_strs (j # js) = Inl DuckTypeError"

definition NL :: string where
  "NL = [CHR 0x0A]"

text \<open>
  \<^verbatim>\<open>f"{v}"\<close> is \<^verbatim>\<open>str(v)\<close>: a str is itself; the rendering of any other value is
  Python's own (\<^verbatim>\<open>repr\<close> of numbers and containers) and is a parameter \<open>pstr\<close> here.
\<close>

fun py_str :: "(json \<Rightarrow> string) \<Rightarrow> json \<Rightarrow> string" where
  "py_str pstr (JStr s) = s"
| "py_str pstr j = pstr j"

section \<open>Configuration, transport and session state\<close>

record config =
  MCP_URL :: string
  MCP_TOKEN :: string

definition PROTOCOL_VERSION :: string where
  "PROTOCOL_VERSION = ''2025-11-25''"

record http_request =
  url :: string
  headers :: "(string \<times> string) list"
  json_body :: json
  timeout :: nat

text \<open>
  A response as the code reads it: the status, the headers (looked up by the name the
  code uses), and the body as \<^verbatim>\<open>resp.json()\<close> decodes it (\<open>None\<close>: not JSON).
\<close>

record http_response =
  status_code :: nat
  resp_headers :: "(string \<times> string) list"
  resp_json :: "json option"

datatype outcome = TransportError | Response http_response

text \<open>
  The upstream server is any function from the requests sent so far and the current
  request to what \<^verbatim>\<open>requests.post\<close> observes.
\<close>

type_synonym upstream = "http_request list \<Rightarrow> http_request \<Rightarrow> outcome"

text \<open>
  The module's globals \<^verbatim>\<open>_session_id\<close> (\<open>None\<close> at start) and \<^verbatim>\<open>_request_id\<close>, and the
  list of requests posted so far, kept to state what was sent upstream.
\<close>

record bridge =
  session_id :: "string option"
  request_id :: int
  sent :: "http_request list"

definition initial :: bridge where
  "initial = \<lparr>session_id = None, request_id = 0, sent = []\<rparr>"

definition next_id :: "bridge \<Rightarrow> int \<times> bridge" where
  "next_id s = (request_id s + 1, s\<lparr>request_id := request_id s + 1\<rparr>)"

definition post :: "upstream \<Rightarrow> http_request \<Rightarrow> bridge \<Rightarrow> outcome \<times> bridge" where
  "post up r s = (up (sent s) r, s\<lparr>sent := sent s @ [r]\<rparr>)"

text \<open>\<^verbatim>\<open>resp.raise_for_status()\<close> of the requests library: raises on 4xx and 5xx.\<close>

definition raise_for_status :: "http_response \<Rightarrow> pyerr + unit" where
  "raise_for_status r =
     (if 400 \<le> status_code r \<and> status_code r < 600 then Inl (HTTPError (status_code r))
      else Inr ())"

definition header_get :: "(string \<times> string) list \<Rightarrow> string \<Rightarrow> string \<Rightarrow> string" where
  "header_get hs k d = (case map_of hs k of None \<Rightarrow> d | Some v \<Rightarrow> v)"

definition initialize_request :: "config \<Rightarrow> int \<Rightarrow> http_request" where
  "initialize_request cfg i =
     \<lparr>url = MCP_URL cfg,
      headers = [(''Content-Type'', ''application/json''),
                 (''MCP-Protocol-Version'', PROTOCOL_VERSION),
                 (''Authorization'', ''Bearer '' @ MCP_TOKEN cfg)],
      json_body = JObj [(''jsonrpc'', JStr ''2.0''),
                        (''id'', JInt i),
                        (''method'', JStr ''initialize''),
                        (''params'', JObj [(''protocolVersion'', JStr PROTOCOL_VERSION),
                                           (''capabilities'', JObj []),
                                           (''clientInfo'', JObj [(''name'', JStr ''elevenlabs-bridge''),
                                                                  (''version'', JStr ''1.0'')])])],
      timeout = 10\<rparr>"

text \<open>
  \<^verbatim>\<open>_ensure_session\<close>, the body under \<^verbatim>\<open>with _session_lock\<close>. \<^verbatim>\<open>if _session_id\<close> is
  true for a non-empty string only.
\<close>

definition ensure_session :: "config \<Rightarrow> upstream \<Rightarrow> bridge \<Rightarrow> (pyerr + string) \<times> bridge" where
  "ensure_session cfg up s =
     (case session_id s of
        Some (c # cs) \<Rightarrow> (Inr (c # cs), s)
      | _ \<Rightarrow>
          (case next_id s of (i, s1) \<Rightarrow>
           (case post up (initialize_request cfg i) s1 of
              (TransportError, s2) \<Rightarrow> (Inl RequestException, s2)
            | (Response r, s2) \<Rightarrow>
                (case raise_for_status r of
                   Inl e \<Rightarrow> (Inl e, s2)
                 | Inr u \<Rightarrow>
                     (let sid = header_get (resp_headers r) ''Mcp-Session-Id'' ''''
                      in (Inr sid, s2\<lparr>session_id := Some sid\<rparr>))))))"

section \<open>The tool invoker\<close>

definition tool_request :: "config \<Rightarrow> string \<Rightarrow> int \<Rightarrow> string \<Rightarrow> json \<Rightarrow> http_request" where
  "tool_request cfg sid i tool_name arguments =
     \<lparr>url = MCP_URL cfg,
      headers = [(''Content-Type'', ''application/json''),
                 (''MCP-Protocol-Version'', PROTOCOL_VERSION),
                 (''Authorization'', ''Bearer '' @ MCP_TOKEN cfg),
                 (''MCP-Session-Id'', sid)],
      json_body = JObj [(''jsonrpc'', JStr ''2.0''),
                        (''id'', JInt i),
                        (''method'', JStr ''tools/call''),
                        (''params'', JObj [(''name'', JStr tool_name),
                                           (''arguments'', arguments)])],
      timeout = 30\<rparr>"

text \<open>
  What \<^verbatim>\<open>_call_tool\<close> returns: the tuple \<^verbatim>\<open>({"error": ...}, 500)\<close>, or the dict
  \<^verbatim>\<open>{"result": text, "structured": sc}\<close>, kept as \<open>Val text sc\<close>; callers tell them
  apart with \<^verbatim>\<open>isinstance(result, tuple)\<close>. Both keys of the dict are always present
  (\<open>sc\<close> is \<open>JNull\<close> when the upstream result has no \<^verbatim>\<open>structuredContent\<close>), so the
  defaults of the callers' \<^verbatim>\<open>.get("result", "")\<close> and \<^verbatim>\<open>.get("structured", {})\<close> are
  never used.
\<close>

datatype tool_ret = Tup json nat | Val string json

text \<open>
  The generator of line 92: the \<^verbatim>\<open>text\<close> of every entry whose \<^verbatim>\<open>type\<close> equals
  \<^verbatim>\<open>"text"\<close>; an entry that is not a dict has no \<^verbatim>\<open>get\<close>.
\<close>

fun text_items :: "json list \<Rightarrow> pyerr + json list" where
  "text_items [] = Inr []"
| "text_items (c # cs) =
     (case dict_get c ''type'' JNull of
        Inl e \<Rightarrow> Inl e
      | Inr t \<Rightarrow>
          (case text_items cs of
             Inl e \<Rightarrow> Inl e
           | Inr ts \<Rightarrow>
               (if t = JStr ''text''
                then (case dict_get c ''text'' (JStr '''') of Inl e \<Rightarrow> Inl e | Inr x \<Rightarrow> Inr (x # ts))
                else Inr ts)))"

text \<open>Lines 87 to 93 of \<^verbatim>\<open>_call_tool\<close>, on the decoded body \<^verbatim>\<open>data\<close>.\<close>

fun decode :: "json \<Rightarrow> pyerr + tool_ret" where
  "decode (JObj kvs) =
     (case map_of kvs ''error'' of
        Some e \<Rightarrow> Inr (Tup (JObj [(''error'', e)]) 500)
      | None \<Rightarrow>
          (case dict_get (JObj kvs) ''result'' (JObj []) of
             Inl e \<Rightarrow> Inl e
           | Inr result \<Rightarrow>
               (case dict_get result ''content'' (JArr []) of
                  Inl e \<Rightarrow> Inl e
                | Inr content \<Rightarrow>
                    (case py_iter content of
                       Inl e \<Rightarrow> Inl e
                     | Inr cs \<Rightarrow>
                         (case text_items cs of
                            Inl e \<Rightarrow> Inl e
                          | Inr ts \<Rightarrow>
                              (case as_strs ts of
                                 Inl e \<Rightarrow> Inl e
                               | Inr ss \<Rightarrow>
                                   (case dict_get result ''structuredContent'' JNull of
                                      Inl e \<Rightarrow> Inl e
                                    | Inr sc \<Rightarrow>
                                        Inr (Val (py_join NL ss) sc))))))))"
| "decode j = Inl DuckTypeError"

text \<open>Lines 85 to 93: what \<^verbatim>\<open>_call_tool\<close> makes of the outcome of its post.\<close>

definition tool_response :: "outcome \<Rightarrow> pyerr + tool_ret" where
  "tool_response out =
     (case out of
        TransportError \<Rightarrow> Inl RequestException
      | Response r \<Rightarrow>
          (case raise_for_status r of
             Inl e \<Rightarrow> Inl e
           | Inr u \<Rightarrow>
               (case resp_json r of
                  None \<Rightarrow> Inl JSONDecodeError
                | Some data \<Rightarrow> decode data)))"

definition call_tool ::
  "config \<Rightarrow> upstream \<Rightarrow> string \<Rightarrow> json \<Rightarrow> bridge \<Rightarrow> (pyerr + tool_ret) \<times> bridge" where
  "call_tool cfg up tool_name arguments s =
     (case ensure_session cfg up s of
        (Inl e, s1) \<Rightarrow> (Inl e, s1)
      | (Inr sid, s1) \<Rightarrow>
          (case next_id s1 of (i, s2) \<Rightarrow>
           (case post up (tool_request cfg sid i tool_name arguments) s2 of
              (out, s3) \<Rightarrow> (tool_response out, s3))))"

section \<open>The routes\<close>

text \<open>
  Lines 119 to 124 of \<^verbatim>\<open>search\<close>, the same as lines 153 to 158 of \<^verbatim>\<open>ask\<close>: the
  \<^verbatim>\<open>rel_path\<close> of a hit and the arguments of its \<^verbatim>\<open>dir2mcp.open_file\<close> call.
\<close>

definition open_file_args :: "json \<Rightarrow> pyerr + json \<times> json" where
  "open_file_args h =
     (case dict_get h ''RelPath'' (JStr '''') of
        Inl e \<Rightarrow> Inl e
      | Inr rel_path \<Rightarrow>
          (case dict_get h ''Span'' (JObj []) of
             Inl e \<Rightarrow> Inl e
           | Inr span \<Rightarrow>
               (case dict_get span ''Kind'' JNull of
                  Inl e \<Rightarrow> Inl e
                | Inr kind \<Rightarrow>
                    (let args = [(''rel_path'', rel_path), (''max_chars'', JInt 3000)]
                     in if kind = JStr ''lines''
                        then (case dict_get span ''StartLine'' (JInt 1) of
                                Inl e \<Rightarrow> Inl e
                              | Inr sl \<Rightarrow>
                                  (case dict_get span ''EndLine'' (JInt 100) of
                                     Inl e \<Rightarrow> Inl e
                                   | Inr el \<Rightarrow>
                                       Inr (rel_path,
                                            JObj (dict_set (dict_set args ''start_line'' sl)
                                                    ''end_line'' el))))
                        else Inr (rel_path, JObj args)))))"

text \<open>
  Line 126 (and 160):
  \<^verbatim>\<open>source.get("result", "") if not isinstance(source, tuple) else ""\<close>.
\<close>

fun source_text :: "tool_ret \<Rightarrow> string" where
  "source_text (Tup j code) = ''''"
| "source_text (Val text sc) = text"

text \<open>Lines 119 to 126 (and 153 to 160): one round of the loop, up to \<^verbatim>\<open>text\<close>.\<close>

definition fetch_hit ::
  "config \<Rightarrow> upstream \<Rightarrow> json \<Rightarrow> bridge \<Rightarrow> (pyerr + json \<times> string) \<times> bridge" where
  "fetch_hit cfg up h s =
     (case open_file_args h of
        Inl e \<Rightarrow> (Inl e, s)
      | Inr (rel_path, args) \<Rightarrow>
          (case call_tool cfg up ''dir2mcp.open_file'' args s of
             (Inl e, s1) \<Rightarrow> (Inl e, s1)
           | (Inr source, s1) \<Rightarrow> (Inr (rel_path, source_text source), s1)))"

text \<open>
  The loop of lines 118 to 127 and of lines 152 to 161. The two differ in the entry
  appended to \<^verbatim>\<open>enriched\<close> only, which is the parameter \<open>mk\<close>.
\<close>

fun enrich ::
  "config \<Rightarrow> upstream \<Rightarrow> (json \<Rightarrow> json \<Rightarrow> string \<Rightarrow> pyerr + 'e) \<Rightarrow> json list \<Rightarrow> bridge
     \<Rightarrow> (pyerr + 'e list) \<times> bridge" where
  "enrich cfg up mk [] s = (Inr [], s)"
| "enrich cfg up mk (h # hs) s =
     (case fetch_hit cfg up h s of
        (Inl e, s1) \<Rightarrow> (Inl e, s1)
      | (Inr (rel_path, text), s1) \<Rightarrow>
          (case mk h rel_path text of
             Inl e \<Rightarrow> (Inl e, s1)
           | Inr x \<Rightarrow>
               (case enrich cfg up mk hs s1 of
                  (Inl e, s2) \<Rightarrow> (Inl e, s2)
                | (Inr xs, s2) \<Rightarrow> (Inr (x # xs), s2))))"

record ask_entry =
  e_file :: json
  e_content :: string

record search_entry = ask_entry +
  e_score :: json

text \<open>Line 127: \<^verbatim>\<open>{"file": rel_path, "score": h.get("Score", 0), "content": text}\<close>.\<close>

definition mk_search_entry :: "json \<Rightarrow> json \<Rightarrow> string \<Rightarrow> pyerr + search_entry" where
  "mk_search_entry h rel_path text =
     (case dict_get h ''Score'' (JInt 0) of
        Inl e \<Rightarrow> Inl e
      | Inr sc \<Rightarrow> Inr \<lparr>e_file = rel_path, e_content = text, e_score = sc\<rparr>)"

text \<open>Line 161: \<^verbatim>\<open>{"file": rel_path, "content": text}\<close>.\<close>

definition mk_ask_entry :: "json \<Rightarrow> json \<Rightarrow> string \<Rightarrow> pyerr + ask_entry" where
  "mk_ask_entry h rel_path text = Inr \<lparr>e_file = rel_path, e_content = text\<rparr>"

text \<open>
  Line 130. \<open>pct\<close> is Python's format specification \<^verbatim>\<open>.0%\<close> (a number times 100, no
  decimals, a percent sign; an exception on a value that is not a number).
\<close>

definition search_block ::
  "(json \<Rightarrow> string) \<Rightarrow> (json \<Rightarrow> pyerr + string) \<Rightarrow> search_entry \<Rightarrow> pyerr + string" where
  "search_block pstr pct e =
     (case pct (e_score e) of
        Inl err \<Rightarrow> Inl err
      | Inr p \<Rightarrow>
          Inr (''=== '' @ py_str pstr (e_file e) @ '' (relevance: '' @ p @ '') ==='' @ NL @ e_content e))"

text \<open>Line 164.\<close>

definition ask_block :: "(json \<Rightarrow> string) \<Rightarrow> ask_entry \<Rightarrow> string" where
  "ask_block pstr e = ''=== Source: '' @ py_str pstr (e_file e) @ '' ==='' @ NL @ e_content e"

text \<open>A generator whose items may raise, consumed by \<^verbatim>\<open>join\<close>: the first exception wins.\<close>

fun try_map :: "('a \<Rightarrow> pyerr + 'b) \<Rightarrow> 'a list \<Rightarrow> pyerr + 'b list" where
  "try_map f [] = Inr []"
| "try_map f (x # xs) =
     (case f x of
        Inl e \<Rightarrow> Inl e
      | Inr y \<Rightarrow> (case try_map f xs of Inl e \<Rightarrow> Inl e | Inr ys \<Rightarrow> Inr (y # ys)))"

text \<open>
  A route returns the JSON body and the status of its response, or raises (Flask then
  answers 500 with its own error page). \<open>request_json\<close> is \<^verbatim>\<open>request.json\<close>.
\<close>

definition search ::
  "(json \<Rightarrow> string) \<Rightarrow> (json \<Rightarrow> pyerr + string) \<Rightarrow> config \<Rightarrow> upstream \<Rightarrow> json \<Rightarrow> bridge
     \<Rightarrow> (pyerr + json \<times> nat) \<times> bridge" where
  "search pstr pct cfg up request_json s =
     (let body = (if truthy request_json then request_json else JObj [])
      in case dict_get body ''query'' (JStr '''') of
           Inl e \<Rightarrow> (Inl e, s)
         | Inr query \<Rightarrow>
             if \<not> truthy query
             then (Inr (JObj [(''error'', JStr ''query is required'')], 400), s)
             else
               (case dict_get body ''k'' (JInt 3) of
                  Inl e \<Rightarrow> (Inl e, s)
                | Inr k \<Rightarrow>
                    (case call_tool cfg up ''dir2mcp.search'' (JObj [(''query'', query), (''k'', k)]) s of
                       (Inl e, s1) \<Rightarrow> (Inl e, s1)
                     | (Inr (Tup j code), s1) \<Rightarrow> (Inr (j, code), s1)
                     | (Inr (Val text structured), s1) \<Rightarrow>
                         (case dict_get structured ''hits'' (JArr []) of
                            Inl e \<Rightarrow> (Inl e, s1)
                          | Inr hits \<Rightarrow>
                              (case slice3 hits of
                                 Inl e \<Rightarrow> (Inl e, s1)
                               | Inr hs \<Rightarrow>
                                   (case enrich cfg up mk_search_entry hs s1 of
                                      (Inl e, s2) \<Rightarrow> (Inl e, s2)
                                    | (Inr enriched, s2) \<Rightarrow>
                                        (case try_map (search_block pstr pct) enriched of
                                           Inl e \<Rightarrow> (Inl e, s2)
                                         | Inr blocks \<Rightarrow>
                                             (Inr (JObj [(''result'', JStr (py_join (NL @ NL) blocks))], 200),
                                              s2))))))))"

definition ask ::
  "(json \<Rightarrow> string) \<Rightarrow> config \<Rightarrow> upstream \<Rightarrow> json \<Rightarrow> bridge \<Rightarrow> (pyerr + json \<times> nat) \<times> bridge" where
  "ask pstr cfg up request_json s =
     (let body = (if truthy request_json then request_json else JObj [])
      in case dict_get body ''question'' (JStr '''') of
           Inl e \<Rightarrow> (Inl e, s)
         | Inr question \<Rightarrow>
             if \<not> truthy question
             then (Inr (JObj [(''error'', JStr ''question is required'')], 400), s)
             else
               (case call_tool cfg up ''dir2mcp.search'' (JObj [(''query'', question), (''k'', JInt 3)]) s of
                  (Inl e, s1) \<Rightarrow> (Inl e, s1)
                | (Inr (Tup j code), s1) \<Rightarrow> (Inr (j, code), s1)
                | (Inr (Val text structured), s1) \<Rightarrow>
                    (case dict_get structured ''hits'' (JArr []) of
                       Inl e \<Rightarrow> (Inl e, s1)
                     | Inr hits \<Rightarrow>
                         (case slice3 hits of
                            Inl e \<Rightarrow> (Inl e, s1)
                          | Inr hs \<Rightarrow>
                              (case enrich cfg up mk_ask_entry hs s1 of
                                 (Inl e, s2) \<Rightarrow> (Inl e, s2)
                               | (Inr enriched, s2) \<Rightarrow>
                                   (Inr (JObj [(''result'',
                                           JStr (''Question: '' @ py_str pstr question @ NL @ NL
                                                 @ ''Relevant document content:'' @ NL @ NL
                                                 @ py_join (NL @ NL) (map (ask_block pstr) enriched)))],
                                         200),
                                    s2))))))"

section \<open>Observing a run\<close>

text \<open>
  The tool name and arguments of a \<^verbatim>\<open>tools/call\<close> request, read back from the JSON-RPC
  envelope; an \<^verbatim>\<open>initialize\<close> request has none.
\<close>

definition tool_call_of :: "http_request \<Rightarrow> (string \<times> json) option" where
  "tool_call_of r =
     (case dict_get (json_body r) ''method'' JNull of
        Inr (JStr m) \<Rightarrow>
          (if m = ''tools/call''
           then (case dict_get (json_body r) ''params'' JNull of
                   Inr (JObj ps) \<Rightarrow>
                     (case (map_of ps ''name'', map_of ps ''arguments'') of
                        (Some (JStr n), Some a) \<Rightarrow> Some (n, a)
                      | _ \<Rightarrow> None)
                 | _ \<Rightarrow> None)
           else None)
      | _ \<Rightarrow> None)"

fun tool_calls :: "http_request list \<Rightarrow> (string \<times> json) list" where
  "tool_calls [] = []"
| "tool_calls (r # rs) =
     (case tool_call_of r of None \<Rightarrow> tool_calls rs | Some c \<Rightarrow> c # tool_calls rs)"

text \<open>The tool calls posted between state \<open>s\<close> and a later state \<open>s'\<close>, in order.\<close>

definition new_calls :: "bridge \<Rightarrow> bridge \<Rightarrow> (string \<times> json) list" where
  "new_calls s s' = tool_calls (drop (length (sent s)) (sent s'))"

text \<open>\<^verbatim>\<open>if _session_id\<close> is false: the global is \<^verbatim>\<open>None\<close> or the empty string.\<close>

definition session_unset :: "bridge \<Rightarrow> bool" where
  "session_unset s = (case session_id s of None \<Rightarrow> True | Some sid \<Rightarrow> sid = [])"

definition raises_for_status :: "http_response \<Rightarrow> bool" where
  "raises_for_status r = (400 \<le> status_code r \<and> status_code r < 600)"

text \<open>
  A request body without a usable \<^verbatim>\<open>query\<close>: an object whose \<^verbatim>\<open>query\<close> is absent or
  false in Python's sense (empty string, \<^verbatim>\<open>null\<close>, 0), or a body that is itself false
  (\<^verbatim>\<open>null\<close>, \<^verbatim>\<open>{}\<close>), which line 107 replaces by \<^verbatim>\<open>{}\<close>.
\<close>

fun query_missing :: "json \<Rightarrow> bool" where
  "query_missing (JObj kvs) = (case map_of kvs ''query'' of None \<Rightarrow> True | Some q \<Rightarrow> \<not> truthy q)"
| "query_missing j = (\<not> truthy j)"

section \<open>Example inputs\<close>

definition demo_cfg :: config where
  "demo_cfg = \<lparr>MCP_URL = ''http://127.0.0.1:8087/mcp'', MCP_TOKEN = ''t''\<rparr>"

text \<open>A stand-in for Python's \<^verbatim>\<open>str\<close> of a value that is not a string.\<close>

definition demo_pstr :: "json \<Rightarrow> string" where
  "demo_pstr j = ''?''"

text \<open>
  Python's \<^verbatim>\<open>.0%\<close> at the scores of the examples (0, 0.875 and 0.75); elsewhere this
  stand-in raises.
\<close>

definition demo_pct :: "json \<Rightarrow> pyerr + string" where
  "demo_pct j =
     (if j = JInt 0 then Inr ''0%''
      else if j = JFloat 7 (-3) then Inr ''88%''
      else if j = JFloat 3 (-2) then Inr ''75%''
      else Inl FormatError)"

text \<open>An upstream that cannot be reached.\<close>

definition unreachable_upstream :: upstream where
  "unreachable_upstream hist r = TransportError"

text \<open>An upstream that answers 200 to everything and never sends a session header.\<close>

definition headerless_upstream :: upstream where
  "headerless_upstream hist r =
     Response \<lparr>status_code = 200, resp_headers = [], resp_json = Some (JObj [])\<rparr>"

definition demo_error :: json where
  "demo_error = JObj [(''code'', JInt (-32000)), (''message'', JStr ''index unavailable'')]"

text \<open>An upstream that grants the session \<^verbatim>\<open>abc\<close> and answers every tool call with a JSON-RPC error.\<close>

definition search_error_upstream :: upstream where
  "search_error_upstream hist r =
     (case tool_call_of r of
        None \<Rightarrow> Response \<lparr>status_code = 200, resp_headers = [(''Mcp-Session-Id'', ''abc'')],
                           resp_json = Some (JObj [])\<rparr>
      | Some c \<Rightarrow> Response \<lparr>status_code = 200, resp_headers = [],
                             resp_json = Some (JObj [(''jsonrpc'', JStr ''2.0''),
                                                     (''error'', demo_error)])\<rparr>)"

text \<open>An upstream that answers 503 to everything.\<close>

definition unavailable_upstream :: upstream where
  "unavailable_upstream hist r =
     Response \<lparr>status_code = 503, resp_headers = [], resp_json = None\<rparr>"

text \<open>
  The content entries the decoder accepts: an entry is an object, and one whose \<^verbatim>\<open>type\<close>
  is \<^verbatim>\<open>"text"\<close> has a string \<^verbatim>\<open>text\<close> or none. An entry is textual when its \<^verbatim>\<open>type\<close>
  is \<^verbatim>\<open>"text"\<close>; its text defaults to the empty string.
\<close>

fun entry_ok :: "json \<Rightarrow> bool" where
  "entry_ok (JObj kvs) =
     (if map_of kvs ''type'' = Some (JStr ''text'')
      then (case map_of kvs ''text'' of None \<Rightarrow> True | Some (JStr t) \<Rightarrow> True | Some j \<Rightarrow> False)
      else True)"
| "entry_ok j = False"

definition is_text_entry :: "json \<Rightarrow> bool" where
  "is_text_entry c = (dict_get c ''type'' JNull = Inr (JStr ''text''))"

definition entry_text :: "json \<Rightarrow> string" where
  "entry_text c = (case dict_get c ''text'' (JStr '''') of Inr (JStr t) \<Rightarrow> t | _ \<Rightarrow> '''')"

definition demo_result :: json where
  "demo_result =
     JObj [(''content'', JArr [JObj [(''type'', JStr ''text''), (''text'', JStr ''alpha'')],
                               JObj [(''type'', JStr ''image''), (''data'', JStr ''...'')],
                               JObj [(''type'', JStr ''text''), (''text'', JStr ''beta'')]]),
           (''structuredContent'', JObj [(''hits'', JArr [])])]"

section \<open>The enrichment step as the specification words it\<close>

text \<open>
  A field of a hit as the data model reads it: the value under the key, or the default
  when the key is absent.
\<close>

fun field :: "json \<Rightarrow> string \<Rightarrow> json \<Rightarrow> json" where
  "field (JObj kvs) k d = (case map_of kvs k of None \<Rightarrow> d | Some v \<Rightarrow> v)"
| "field j k d = d"

text \<open>A hit the loop can process: an object whose \<^verbatim>\<open>Span\<close>, when present, is an object.\<close>

fun hit_ok :: "json \<Rightarrow> bool" where
  "hit_ok (JObj kvs) =
     (case map_of kvs ''Span'' of None \<Rightarrow> True | Some (JObj sp) \<Rightarrow> True | Some j \<Rightarrow> False)"
| "hit_ok j = False"

text \<open>
  The \<^verbatim>\<open>open_file\<close> arguments in the words of the specification: \<^verbatim>\<open>rel_path\<close>, a cap of
  3000 characters and, only when the kind of the span is \<^verbatim>\<open>"lines"\<close>, \<^verbatim>\<open>start_line\<close> and
  \<^verbatim>\<open>end_line\<close>, which default to 1 and 100.
\<close>

definition spec_open_args :: "json \<Rightarrow> json" where
  "spec_open_args h =
     JObj ([(''rel_path'', field h ''RelPath'' (JStr '''')), (''max_chars'', JInt 3000)]
           @ (if field (field h ''Span'' (JObj [])) ''Kind'' JNull = JStr ''lines''
              then [(''start_line'', field (field h ''Span'' (JObj [])) ''StartLine'' (JInt 1)),
                    (''end_line'', field (field h ''Span'' (JObj [])) ''EndLine'' (JInt 100))]
              else []))"

definition spec_open_call :: "json \<Rightarrow> string \<times> json" where
  "spec_open_call h = (''dir2mcp.open_file'', spec_open_args h)"

text \<open>
  What the \<^verbatim>\<open>_call_tool\<close> of line 125 (and 159) returned or raised for each hit, in the
  order of the loop, which threads the state from one call to the next. The log ends
  at the first exception, as the loop does; a hit whose arguments cannot be built
  counts as one.
\<close>

fun fetch_log :: "config \<Rightarrow> upstream \<Rightarrow> json list \<Rightarrow> bridge \<Rightarrow> (pyerr + tool_ret) list" where
  "fetch_log cfg up [] s = []"
| "fetch_log cfg up (h # hs) s =
     (case open_file_args h of
        Inl e \<Rightarrow> [Inl e]
      | Inr (rel_path, args) \<Rightarrow>
          (case call_tool cfg up ''dir2mcp.open_file'' args s of
             (Inl e, s1) \<Rightarrow> [Inl e]
           | (Inr source, s1) \<Rightarrow> Inr source # fetch_log cfg up hs s1))"

text \<open>The content kept for a hit: the text of the result, empty for a JSON-RPC error.\<close>

fun log_text :: "pyerr + tool_ret \<Rightarrow> string" where
  "log_text (Inr (Val text sc)) = text"
| "log_text x = ''''"

text \<open>
  The blocks in the words of the specification:
  \<^verbatim>\<open>=== {file} (relevance: {score as a percentage}) ===\<close>, a newline, the content; and
  \<^verbatim>\<open>=== Source: {file} ===\<close>, a newline, the content.
\<close>

definition spec_search_block ::
  "(json \<Rightarrow> string) \<Rightarrow> (json \<Rightarrow> pyerr + string) \<Rightarrow> json \<Rightarrow> string \<Rightarrow> string" where
  "spec_search_block pstr pct h text =
     ''=== '' @ py_str pstr (field h ''RelPath'' (JStr ''''))
     @ '' (relevance: '' @ (case pct (field h ''Score'' (JInt 0)) of Inl e \<Rightarrow> '''' | Inr p \<Rightarrow> p)
     @ '') ==='' @ NL @ text"

definition spec_ask_block :: "(json \<Rightarrow> string) \<Rightarrow> json \<Rightarrow> string \<Rightarrow> string" where
  "spec_ask_block pstr h text =
     ''=== Source: '' @ py_str pstr (field h ''RelPath'' (JStr '''')) @ '' ==='' @ NL @ text"

text \<open>The entries of \<^verbatim>\<open>enriched\<close> for a hit and its content.\<close>

definition search_entry_of :: "json \<Rightarrow> string \<Rightarrow> search_entry" where
  "search_entry_of h text =
     \<lparr>e_file = field h ''RelPath'' (JStr ''''), e_content = text,
      e_score = field h ''Score'' (JInt 0)\<rparr>"

definition ask_entry_of :: "json \<Rightarrow> string \<Rightarrow> ask_entry" where
  "ask_entry_of h text = \<lparr>e_file = field h ''RelPath'' (JStr ''''), e_content = text\<rparr>"

section \<open>An example upstream\<close>

text \<open>
  Four hits: the first with a line span that has a start only, the second bare, the third
  with a span of another kind, the fourth beyond the three the routes look at.
\<close>

definition demo_hits :: "json list" where
  "demo_hits =
     [JObj [(''RelPath'', JStr ''a.md''), (''Score'', JFloat 7 (-3)),
            (''Span'', JObj [(''Kind'', JStr ''lines''), (''StartLine'', JInt 5)])],
      JObj [(''RelPath'', JStr ''b.md'')],
      JObj [(''RelPath'', JStr ''c.md''), (''Score'', JFloat 3 (-2)),
            (''Span'', JObj [(''Kind'', JStr ''page''), (''StartLine'', JInt 7)])],
      JObj [(''RelPath'', JStr ''d.md'')]]"

definition session_response :: outcome where
  "session_response =
     Response \<lparr>status_code = 200, resp_headers = [(''Mcp-Session-Id'', ''abc'')],
               resp_json = Some (JObj [])\<rparr>"

definition hits_response :: outcome where
  "hits_response =
     Response \<lparr>status_code = 200, resp_headers = [],
               resp_json = Some (JObj [(''result'',
                 JObj [(''content'', JArr []),
                       (''structuredContent'', JObj [(''hits'', JArr demo_hits)])])])\<rparr>"

definition text_response :: outcome where
  "text_response =
     Response \<lparr>status_code = 200, resp_headers = [],
               resp_json = Some (JObj [(''result'',
                 JObj [(''content'', JArr [JObj [(''type'', JStr ''text''),
                                                 (''text'', JStr ''alpha'')]])])])\<rparr>"

definition error_response :: outcome where
  "error_response =
     Response \<lparr>status_code = 200, resp_headers = [],
               resp_json = Some (JObj [(''error'', demo_error)])\<rparr>"

text \<open>
  Grants the session \<^verbatim>\<open>abc\<close>, answers the search with the four hits, and serves every
  file but \<^verbatim>\<open>b.md\<close>, for which \<^verbatim>\<open>open_file\<close> gets a JSON-RPC error.
\<close>

definition demo_upstream :: upstream where
  "demo_upstream hist r =
     (case tool_call_of r of
        None \<Rightarrow> session_response
      | Some (n, a) \<Rightarrow>
          if n = ''dir2mcp.search'' then hits_response
          else if field a ''rel_path'' JNull = JStr ''b.md'' then error_response
          else text_response)"

text \<open>The same, except that the \<^verbatim>\<open>open_file\<close> call for \<^verbatim>\<open>b.md\<close> gets the status 503.\<close>

definition flaky_upstream :: upstream where
  "flaky_upstream hist r =
     (case tool_call_of r of
        None \<Rightarrow> session_response
      | Some (n, a) \<Rightarrow>
          if n = ''dir2mcp.search'' then hits_response
          else if field a ''rel_path'' JNull = JStr ''b.md''
          then Response \<lparr>status_code = 503, resp_headers = [], resp_json = None\<rparr>
          else text_response)"

definition demo_args :: json where
  "demo_args = JObj [(''query'', JStr ''foo''), (''k'', JInt 3)]"

text \<open>The state after the handshake and the search call against these upstreams.\<close>

definition demo_s1 :: bridge where
  "demo_s1 =
     \<lparr>session_id = Some ''abc'', request_id = 2,
      sent = [initialize_request demo_cfg 1,
              tool_request demo_cfg ''abc'' 2 ''dir2mcp.search'' demo_args]\<rparr>"

section \<open>Concurrent callers\<close>

text \<open>
  Flask serves each request on a thread of its own. The two globals are guarded by
  \<^verbatim>\<open>threading.Lock\<close> objects, taken with \<^verbatim>\<open>with\<close>: a thread that finds the lock held waits,
  and the lock is released when the block is left, by \<^verbatim>\<open>return\<close> or by an exception.
  A run of the threads is a schedule: the list of the threads in the order in which they
  take their next step. A step of a thread that waits for a lock changes nothing.
\<close>

type_synonym tid = nat

subsection \<open>Threads in \<^verbatim>\<open>_next_id\<close>\<close>

text \<open>
  Where a thread stands in lines 29 to 33: before \<^verbatim>\<open>with _id_lock\<close>; holding the lock,
  before \<^verbatim>\<open>_request_id += 1\<close>; having read \<^verbatim>\<open>_request_id\<close> for the addition; having stored
  the sum, before \<^verbatim>\<open>return _request_id\<close>; having read the value it returns, the lock
  still held; and having released the lock and returned that value.
\<close>

datatype id_pc =
    IdIdle
  | IdLocked
  | IdLoaded int
  | IdStored
  | IdRead int
  | IdReturned int

text \<open>
  \<^verbatim>\<open>_request_id\<close>, the holder of \<^verbatim>\<open>_id_lock\<close>, the place of every thread, and the values the
  calls have read for return so far, in the order in which they were read.
\<close>

record id_sys =
  counter :: int
  id_lock :: "tid option"
  id_pc :: "tid \<Rightarrow> id_pc"
  issued :: "int list"


text \<open>One step of thread \<open>t\<close>. A thread that has returned calls \<^verbatim>\<open>_next_id\<close> again.\<close>

definition id_step :: "tid \<Rightarrow> id_sys \<Rightarrow> id_sys" where
  "id_step t s =
     (case id_pc s t of
        IdIdle \<Rightarrow>
          (case id_lock s of
             None \<Rightarrow> s\<lparr>id_lock := Some t, id_pc := (id_pc s)(t := IdLocked)\<rparr>
           | Some u \<Rightarrow> s)
      | IdLocked \<Rightarrow> s\<lparr>id_pc := (id_pc s)(t := IdLoaded (counter s))\<rparr>
      | IdLoaded v \<Rightarrow> s\<lparr>counter := v + 1, id_pc := (id_pc s)(t := IdStored)\<rparr>
      | IdStored \<Rightarrow>
          s\<lparr>id_pc := (id_pc s)(t := IdRead (counter s)), issued := issued s @ [counter s]\<rparr>
      | IdRead v \<Rightarrow> s\<lparr>id_lock := None, id_pc := (id_pc s)(t := IdReturned v)\<rparr>
      | IdReturned v \<Rightarrow> s\<lparr>id_pc := (id_pc s)(t := IdIdle)\<rparr>)"

fun id_run :: "tid list \<Rightarrow> id_sys \<Rightarrow> id_sys" where
  "id_run [] s = s"
| "id_run (t # ts) s = id_run ts (id_step t s)"



subsection \<open>Threads in \<^verbatim>\<open>_ensure_session\<close>\<close>

text \<open>
  Where a thread stands in lines 36 to 63: before \<^verbatim>\<open>with _session_lock\<close>; holding the lock,
  before the test of line 40; having posted the \<^verbatim>\<open>initialize\<close> request, with the outcome
  that is on its way (the handshake is in flight); and having returned or raised, the
  lock released.
\<close>

datatype es_pc =
    EsIdle
  | EsLocked
  | EsWaiting outcome
  | EsDone "pyerr + string"

text \<open>
  The globals and the requests posted, the holder of \<^verbatim>\<open>_session_lock\<close>, the place of every
  thread, and the calls completed so far with what they returned or raised.
\<close>

record es_sys =
  shared :: bridge
  session_lock :: "tid option"
  es_pc :: "tid \<Rightarrow> es_pc"
  completed :: "(tid \<times> (pyerr + string)) list"


text \<open>Leaving the \<^verbatim>\<open>with\<close> block with the result \<open>r\<close>.\<close>

definition finish :: "tid \<Rightarrow> pyerr + string \<Rightarrow> es_sys \<Rightarrow> es_sys" where
  "finish t r s =
     s\<lparr>session_lock := None, es_pc := (es_pc s)(t := EsDone r), completed := completed s @ [(t, r)]\<rparr>"

text \<open>
  One step of thread \<open>t\<close>: taking the lock; the test of line 40 followed by the return of
  the cached identifier or by lines 42 to 60 (only the holder of \<^verbatim>\<open>_session_lock\<close> is in
  \<^verbatim>\<open>_next_id\<close> here, so the identifier is taken in the same step); and lines 61 to 63 on the
  outcome. A thread that is done calls \<^verbatim>\<open>_ensure_session\<close> again.
\<close>

definition es_step :: "config \<Rightarrow> upstream \<Rightarrow> tid \<Rightarrow> es_sys \<Rightarrow> es_sys" where
  "es_step cfg up t s =
     (case es_pc s t of
        EsIdle \<Rightarrow>
          (case session_lock s of
             None \<Rightarrow> s\<lparr>session_lock := Some t, es_pc := (es_pc s)(t := EsLocked)\<rparr>
           | Some u \<Rightarrow> s)
      | EsLocked \<Rightarrow>
          (case session_id (shared s) of
             Some (c # cs) \<Rightarrow> finish t (Inr (c # cs)) s
           | _ \<Rightarrow>
               (case next_id (shared s) of (i, b1) \<Rightarrow>
                (case post up (initialize_request cfg i) b1 of (out, b2) \<Rightarrow>
                   s\<lparr>shared := b2, es_pc := (es_pc s)(t := EsWaiting out)\<rparr>)))
      | EsWaiting out \<Rightarrow>
          (case out of
             TransportError \<Rightarrow> finish t (Inl RequestException) s
           | Response r \<Rightarrow>
               (case raise_for_status r of
                  Inl e \<Rightarrow> finish t (Inl e) s
                | Inr u \<Rightarrow>
                    (let sid = header_get (resp_headers r) ''Mcp-Session-Id'' ''''
                     in finish t (Inr sid) (s\<lparr>shared := (shared s)\<lparr>session_id := Some sid\<rparr>\<rparr>))))
      | EsDone r \<Rightarrow> s\<lparr>es_pc := (es_pc s)(t := EsIdle)\<rparr>)"

fun es_run :: "config \<Rightarrow> upstream \<Rightarrow> tid list \<Rightarrow> es_sys \<Rightarrow> es_sys" where
  "es_run cfg up [] s = s"
| "es_run cfg up (t # ts) s = es_run cfg up ts (es_step cfg up t s)"





section \<open>Basic facts about the session manager and the tool invoker\<close>

lemma tool_call_of_tool_request [simp]:
  "tool_call_of (tool_request cfg sid i n a) = Some (n, a)"
  by (simp add: tool_call_of_def tool_request_def)

lemma tool_call_of_initialize_request [simp]:
  "tool_call_of (initialize_request cfg i) = None"
  by (simp add: tool_call_of_def initialize_request_def)

lemma tool_calls_append [simp]: "tool_calls (xs @ ys) = tool_calls xs @ tool_calls ys"
  by (induction xs) (auto split: option.splits)

lemma new_calls_append: "sent s' = sent s @ xs \<Longrightarrow> new_calls s s' = tool_calls xs"
  by (simp add: new_calls_def)

text \<open>With no session yet, \<^verbatim>\<open>_ensure_session\<close> takes an id, posts and reads the outcome.\<close>

lemma ensure_session_unset:
  assumes "session_unset s"
  shows "ensure_session cfg up s =
     (case up (sent s) (initialize_request cfg (request_id s + 1)) of
        TransportError \<Rightarrow>
          (Inl RequestException,
           s\<lparr>request_id := request_id s + 1,
             sent := sent s @ [initialize_request cfg (request_id s + 1)]\<rparr>)
      | Response r \<Rightarrow>
          if raises_for_status r
          then (Inl (HTTPError (status_code r)),
                s\<lparr>request_id := request_id s + 1,
                  sent := sent s @ [initialize_request cfg (request_id s + 1)]\<rparr>)
          else (Inr (header_get (resp_headers r) ''Mcp-Session-Id'' ''''),
                s\<lparr>request_id := request_id s + 1,
                  sent := sent s @ [initialize_request cfg (request_id s + 1)],
                  session_id := Some (header_get (resp_headers r) ''Mcp-Session-Id'' '''')\<rparr>))"
  using assms
  by (auto simp: session_unset_def ensure_session_def next_id_def post_def raise_for_status_def
      raises_for_status_def Let_def split: option.splits list.splits outcome.splits)

lemma ensure_session_set:
  assumes "\<not> session_unset s"
  shows "\<exists>sid. session_id s = Some sid \<and> sid \<noteq> [] \<and> ensure_session cfg up s = (Inr sid, s)"
proof -
  from assms obtain c cs where "session_id s = Some (c # cs)"
    by (cases "session_id s") (auto simp: session_unset_def neq_Nil_conv)
  then show ?thesis by (simp add: ensure_session_def)
qed

lemma ensure_session_sent:
  assumes "ensure_session cfg up s = (r, s1)"
  shows "\<exists>xs. sent s1 = sent s @ xs \<and> tool_calls xs = []"
proof (cases "session_unset s")
  case True
  from assms show ?thesis
    unfolding ensure_session_unset [OF True]
    by (auto split: outcome.splits if_splits)
next
  case False
  with assms ensure_session_set [OF False, of cfg up] show ?thesis by auto
qed

lemma call_tool_no_session:
  assumes "ensure_session cfg up s = (Inl e, s1)"
  shows "call_tool cfg up n a s = (Inl e, s1)"
  using assms by (simp add: call_tool_def)

lemma call_tool_session:
  assumes "ensure_session cfg up s = (Inr sid, s1)"
  shows "call_tool cfg up n a s =
           (tool_response (up (sent s1) (tool_request cfg sid (request_id s1 + 1) n a)),
            s1\<lparr>request_id := request_id s1 + 1,
               sent := sent s1 @ [tool_request cfg sid (request_id s1 + 1) n a]\<rparr>)"
  using assms by (simp add: call_tool_def next_id_def post_def)

lemma call_tool_sent:
  assumes "call_tool cfg up n a s = (r, s')"
  shows "\<exists>xs. sent s' = sent s @ xs \<and> (tool_calls xs = [] \<or> tool_calls xs = [(n, a)])"
proof (cases "ensure_session cfg up s")
  case (Pair r1 s1)
  then obtain xs where xs: "sent s1 = sent s @ xs" "tool_calls xs = []"
    using ensure_session_sent by blast
  show ?thesis
  proof (cases r1)
    case (Inl e)
    with Pair assms xs show ?thesis
      by (auto simp: call_tool_no_session)
  next
    case (Inr sid)
    with Pair assms xs show ?thesis
      by (auto simp: call_tool_session)
  qed
qed

lemma tool_response_error:
  assumes "\<not> raises_for_status r" "resp_json r = Some (JObj data)" "map_of data ''error'' = Some e"
  shows "tool_response (Response r) = Inr (Tup (JObj [(''error'', e)]) 500)"
  using assms by (simp add: tool_response_def raise_for_status_def raises_for_status_def)

lemma fetch_hit_sent:
  assumes "fetch_hit cfg up h s = (r, s')"
  shows "\<exists>xs. sent s' = sent s @ xs"
  using assms call_tool_sent
  by (fastforce simp: fetch_hit_def split: sum.splits prod.splits)

lemma enrich_sent:
  assumes "enrich cfg up mk hs s = (r, s')"
  shows "\<exists>xs. sent s' = sent s @ xs"
  using assms
proof (induction hs arbitrary: s r s')
  case Nil
  then show ?case by simp
next
  case (Cons h hs)
  obtain r1 s1 where f: "fetch_hit cfg up h s = (r1, s1)" by fastforce
  then obtain xs where xs: "sent s1 = sent s @ xs" using fetch_hit_sent by blast
  show ?case
  proof (cases r1)
    case (Inl e)
    with Cons.prems f xs show ?thesis by auto
  next
    case (Inr p)
    obtain rp t where p: "p = (rp, t)" by fastforce
    show ?thesis
    proof (cases "mk h rp t")
      case (Inl e)
      with Cons.prems f xs Inr p show ?thesis by auto
    next
      case mk: (Inr x)
      obtain r2 s2 where e: "enrich cfg up mk hs s1 = (r2, s2)" by fastforce
      then obtain ys where "sent s2 = sent s1 @ ys" using Cons.IH by blast
      with Cons.prems f xs Inr p mk e show ?thesis
        by (auto split: sum.splits)
    qed
  qed
qed

lemma is_text_entry_obj:
  "is_text_entry (JObj kvs) = (map_of kvs ''type'' = Some (JStr ''text''))"
  by (auto simp: is_text_entry_def split: option.splits)

lemma entry_text_obj:
  "entry_text (JObj kvs) =
     (case map_of kvs ''text'' of None \<Rightarrow> '''' | Some (JStr t) \<Rightarrow> t | Some j \<Rightarrow> '''')"
  by (auto simp: entry_text_def split: option.splits json.splits)

lemma text_items_ok:
  assumes "list_all entry_ok cs"
  shows "\<exists>ts. text_items cs = Inr ts
           \<and> as_strs ts = Inr (map entry_text (filter is_text_entry cs))"
  using assms
proof (induction cs)
  case Nil
  then show ?case by simp
next
  case (Cons c cs)
  then obtain ts where ts: "text_items cs = Inr ts"
      "as_strs ts = Inr (map entry_text (filter is_text_entry cs))"
    by auto
  from Cons.prems obtain kvs where c: "c = JObj kvs" by (cases c) auto
  show ?case
  proof (cases "map_of kvs ''type'' = Some (JStr ''text'')")
    case True
    with Cons.prems c ts show ?thesis
      by (auto simp: is_text_entry_obj entry_text_obj split: option.splits json.splits)
  next
    case False
    with c ts show ?thesis
      by (auto simp: is_text_entry_obj split: option.splits)
  qed
qed

lemma search_unfold:
  assumes "map_of kvs ''query'' = Some q" "truthy q"
  shows "search pstr pct cfg up (JObj kvs) s =
    (case call_tool cfg up ''dir2mcp.search''
            (JObj [(''query'', q), (''k'', case map_of kvs ''k'' of None \<Rightarrow> JInt 3 | Some v \<Rightarrow> v)]) s of
       (Inl e, s1) \<Rightarrow> (Inl e, s1)
     | (Inr (Tup j code), s1) \<Rightarrow> (Inr (j, code), s1)
     | (Inr (Val text structured), s1) \<Rightarrow>
         (case dict_get structured ''hits'' (JArr []) of
            Inl e \<Rightarrow> (Inl e, s1)
          | Inr hits \<Rightarrow>
              (case slice3 hits of
                 Inl e \<Rightarrow> (Inl e, s1)
               | Inr hs \<Rightarrow>
                   (case enrich cfg up mk_search_entry hs s1 of
                      (Inl e, s2) \<Rightarrow> (Inl e, s2)
                    | (Inr enriched, s2) \<Rightarrow>
                        (case try_map (search_block pstr pct) enriched of
                           Inl e \<Rightarrow> (Inl e, s2)
                         | Inr blocks \<Rightarrow>
                             (Inr (JObj [(''result'', JStr (py_join (NL @ NL) blocks))], 200),
                              s2))))))"
proof -
  have "kvs \<noteq> []" using assms(1) by auto
  with assms show ?thesis by (simp add: search_def)
qed

lemma ask_unfold:
  assumes "map_of kvs ''question'' = Some q" "truthy q"
  shows "ask pstr cfg up (JObj kvs) s =
    (case call_tool cfg up ''dir2mcp.search'' (JObj [(''query'', q), (''k'', JInt 3)]) s of
       (Inl e, s1) \<Rightarrow> (Inl e, s1)
     | (Inr (Tup j code), s1) \<Rightarrow> (Inr (j, code), s1)
     | (Inr (Val text structured), s1) \<Rightarrow>
         (case dict_get structured ''hits'' (JArr []) of
            Inl e \<Rightarrow> (Inl e, s1)
          | Inr hits \<Rightarrow>
              (case slice3 hits of
                 Inl e \<Rightarrow> (Inl e, s1)
               | Inr hs \<Rightarrow>
                   (case enrich cfg up mk_ask_entry hs s1 of
                      (Inl e, s2) \<Rightarrow> (Inl e, s2)
                    | (Inr enriched, s2) \<Rightarrow>
                        (Inr (JObj [(''result'',
                                JStr (''Question: '' @ py_str pstr q @ NL @ NL
                                      @ ''Relevant document content:'' @ NL @ NL
                                      @ py_join (NL @ NL) (map (ask_block pstr) enriched)))],
                              200),
                         s2)))))"
proof -
  have "kvs \<noteq> []" using assms(1) by auto
  with assms show ?thesis by (simp add: ask_def)
qed

lemma search_sent:
  assumes "map_of kvs ''query'' = Some q" "truthy q"
    and "call_tool cfg up ''dir2mcp.search''
            (JObj [(''query'', q), (''k'', case map_of kvs ''k'' of None \<Rightarrow> JInt 3 | Some v \<Rightarrow> v)]) s
         = (r, s1)"
  shows "\<exists>ys. sent (snd (search pstr pct cfg up (JObj kvs) s)) = sent s1 @ ys"
  unfolding search_unfold [OF assms(1,2)] assms(3)
  using enrich_sent [of cfg up mk_search_entry _ s1]
  by (auto split: sum.splits tool_ret.splits prod.splits)

lemma ask_sent:
  assumes "map_of kvs ''question'' = Some q" "truthy q"
    and "call_tool cfg up ''dir2mcp.search'' (JObj [(''query'', q), (''k'', JInt 3)]) s = (r, s1)"
  shows "\<exists>ys. sent (snd (ask pstr cfg up (JObj kvs) s)) = sent s1 @ ys"
  unfolding ask_unfold [OF assms(1,2)] assms(3)
  using enrich_sent [of cfg up mk_ask_entry _ s1]
  by (auto split: sum.splits tool_ret.splits prod.splits)

lemma first_call:
  assumes sess: "ensure_session cfg up s = (Inr sid, s1)"
    and call: "call_tool cfg up n a s = (r, s2)"
    and ext: "sent s' = sent s2 @ ys"
  shows "new_calls s s' = (n, a) # tool_calls ys"
proof -
  obtain xs where xs: "sent s1 = sent s @ xs" "tool_calls xs = []"
    using ensure_session_sent [OF sess] by blast
  from call have "sent s2 = sent s1 @ [tool_request cfg sid (request_id s1 + 1) n a]"
    unfolding call_tool_session [OF sess] by auto
  with xs ext show ?thesis by (simp add: new_calls_def)
qed

text \<open>
  Whatever the body is, a request whose body is not an object with a non-empty \<^verbatim>\<open>query\<close>
  posts nothing and takes no request id, also when line 108 raises.
\<close>

lemma search_no_query_no_contact:
  assumes "\<not> (\<exists>kvs q. request_json = JObj kvs \<and> map_of kvs ''query'' = Some q \<and> truthy q)"
  shows "snd (search pstr pct cfg up request_json s) = s"
proof (cases request_json)
  case (JObj kvs)
  with assms show ?thesis
    by (cases kvs) (auto simp: search_def split: option.splits)
qed (simp_all add: search_def)

section \<open>Facts about the enrichment loop\<close>

lemma open_file_args_ok:
  assumes "hit_ok h"
  shows "open_file_args h = Inr (field h ''RelPath'' (JStr ''''), spec_open_args h)"
proof -
  from assms obtain kvs where h: "h = JObj kvs" by (cases h) auto
  show ?thesis
  proof (cases "map_of kvs ''Span''")
    case None
    with h show ?thesis by (simp add: open_file_args_def spec_open_args_def)
  next
    case (Some sp)
    with assms h obtain ps where "sp = JObj ps" by (cases sp) auto
    with h Some show ?thesis
      by (simp add: open_file_args_def spec_open_args_def Let_def)
  qed
qed

lemma open_file_args_Inr:
  assumes "open_file_args h = Inr (rp, args)"
  shows "hit_ok h"
proof (cases h)
  case (JObj kvs)
  show ?thesis
  proof (cases "map_of kvs ''Span''")
    case None
    with JObj show ?thesis by simp
  next
    case (Some sp)
    with assms JObj show ?thesis
      by (cases sp) (auto simp: open_file_args_def)
  qed
qed (use assms in \<open>simp_all add: open_file_args_def\<close>)

lemma call_tool_sent_strong:
  assumes "call_tool cfg up n a s = (r, s')"
  shows "\<exists>xs. sent s' = sent s @ xs
           \<and> (tool_calls xs = [] \<and> isl r \<or> tool_calls xs = [(n, a)])"
proof (cases "ensure_session cfg up s")
  case (Pair r1 s1)
  then obtain xs where xs: "sent s1 = sent s @ xs" "tool_calls xs = []"
    using ensure_session_sent by blast
  show ?thesis
  proof (cases r1)
    case (Inl e)
    with Pair assms xs show ?thesis
      by (auto simp: call_tool_no_session)
  next
    case (Inr sid)
    with Pair assms xs show ?thesis
      by (auto simp: call_tool_session)
  qed
qed

lemma new_calls_trans:
  assumes "sent s1 = sent s @ xs" "sent s2 = sent s1 @ ys"
  shows "new_calls s s2 = tool_calls xs @ new_calls s1 s2"
  using assms by (simp add: new_calls_def)

lemma new_calls_refl [simp]: "new_calls s s = []"
  by (simp add: new_calls_def)

lemma enrich_by_log:
  assumes mk: "\<And>h t. hit_ok h \<Longrightarrow> mk h (field h ''RelPath'' (JStr '''')) t = Inr (mk' h t)"
    and log: "\<forall>x \<in> set (fetch_log cfg up hs s). \<not> isl x"
  shows "length (fetch_log cfg up hs s) = length hs
       \<and> (\<exists>s'. enrich cfg up mk hs s
                 = (Inr (map2 mk' hs (map log_text (fetch_log cfg up hs s))), s'))"
  using log
proof (induction hs arbitrary: s)
  case Nil
  then show ?case by simp
next
  case (Cons h hs)
  let ?rp = "field h ''RelPath'' (JStr '''')"
  have h: "hit_ok h"
  proof (cases "open_file_args h")
    case (Inl e)
    with Cons.prems show ?thesis by simp
  next
    case (Inr p)
    then show ?thesis using open_file_args_Inr by (cases p) auto
  qed
  note args = open_file_args_ok [OF h]
  obtain r0 s1 where call: "call_tool cfg up ''dir2mcp.open_file'' (spec_open_args h) s = (r0, s1)"
    by fastforce
  with Cons.prems args obtain source where r0: "r0 = Inr source"
    by (cases r0) auto
  with Cons.prems args call have rest: "\<forall>x \<in> set (fetch_log cfg up hs s1). \<not> isl x"
    and lg: "fetch_log cfg up (h # hs) s = Inr source # fetch_log cfg up hs s1"
    by auto
  from Cons.IH [OF rest] obtain s' where
    len: "length (fetch_log cfg up hs s1) = length hs" and
    en: "enrich cfg up mk hs s1 = (Inr (map2 mk' hs (map log_text (fetch_log cfg up hs s1))), s')"
    by auto
  have lt: "log_text (Inr source) = source_text source" by (cases source) auto
  have "enrich cfg up mk (h # hs) s
          = (Inr (mk' h (source_text source) # map2 mk' hs (map log_text (fetch_log cfg up hs s1))), s')"
    by (simp add: fetch_hit_def args call r0 mk [OF h] en)
  with len lg lt show ?case by simp
qed

lemma mk_search_entry_ok:
  "hit_ok h \<Longrightarrow> mk_search_entry h (field h ''RelPath'' (JStr '''')) t = Inr (search_entry_of h t)"
  by (cases h) (auto simp: mk_search_entry_def search_entry_of_def)

lemma mk_ask_entry_ok:
  "hit_ok h \<Longrightarrow> mk_ask_entry h (field h ''RelPath'' (JStr '''')) t = Inr (ask_entry_of h t)"
  by (simp add: mk_ask_entry_def ask_entry_of_def)

lemma ask_blocks:
  "map (ask_block pstr) (map2 ask_entry_of hs ts) = map2 (spec_ask_block pstr) hs ts"
  by (induction hs ts rule: list_induct2')
     (auto simp: ask_block_def spec_ask_block_def ask_entry_of_def)

lemma search_blocks:
  assumes "length ts = length hs"
    and "\<forall>h \<in> set hs. \<not> isl (pct (field h ''Score'' (JInt 0)))"
  shows "try_map (search_block pstr pct) (map2 search_entry_of hs ts)
           = Inr (map2 (spec_search_block pstr pct) hs ts)"
  using assms
proof (induction hs ts rule: list_induct2')
  case (4 h hs t ts)
  then obtain p where "pct (field h ''Score'' (JInt 0)) = Inr p"
    by (cases "pct (field h ''Score'' (JInt 0))") auto
  with 4 show ?case
    by (simp add: search_block_def spec_search_block_def search_entry_of_def)
qed auto

lemma ask_result:
  assumes q: "map_of kvs ''question'' = Some q" "truthy q"
    and call: "call_tool cfg up ''dir2mcp.search'' (JObj [(''query'', q), (''k'', JInt 3)]) s
               = (Inr (Val text st), s1)"
    and hits: "dict_get st ''hits'' (JArr []) = Inr (JArr hits)"
    and log: "\<forall>x \<in> set (fetch_log cfg up (take 3 hits) s1). \<not> isl x"
  shows "fst (ask pstr cfg up (JObj kvs) s) =
     Inr (JObj [(''result'',
            JStr (''Question: '' @ py_str pstr q @ NL @ NL
                  @ ''Relevant document content:'' @ NL @ NL
                  @ py_join (NL @ NL)
                      (map2 (spec_ask_block pstr) (take 3 hits)
                         (map log_text (fetch_log cfg up (take 3 hits) s1)))))], 200)"
proof -
  from enrich_by_log [of mk_ask_entry ask_entry_of, OF mk_ask_entry_ok log]
  obtain s' where len: "length (fetch_log cfg up (take 3 hits) s1) = length (take 3 hits)"
    and en: "enrich cfg up mk_ask_entry (take 3 hits) s1
        = (Inr (map2 ask_entry_of (take 3 hits) (map log_text (fetch_log cfg up (take 3 hits) s1))), s')"
    by auto
  show ?thesis
    unfolding ask_unfold [OF q] call
    using hits en by (simp add: ask_blocks del: map_map)
qed

lemma search_result:
  assumes q: "map_of kvs ''query'' = Some q" "truthy q"
    and call: "call_tool cfg up ''dir2mcp.search''
                 (JObj [(''query'', q), (''k'', case map_of kvs ''k'' of None \<Rightarrow> JInt 3 | Some v \<Rightarrow> v)]) s
               = (Inr (Val text st), s1)"
    and hits: "dict_get st ''hits'' (JArr []) = Inr (JArr hits)"
    and log: "\<forall>x \<in> set (fetch_log cfg up (take 3 hits) s1). \<not> isl x"
    and pct: "\<forall>h \<in> set (take 3 hits). \<not> isl (pct (field h ''Score'' (JInt 0)))"
  shows "fst (search pstr pct cfg up (JObj kvs) s) =
     Inr (JObj [(''result'',
            JStr (py_join (NL @ NL)
                    (map2 (spec_search_block pstr pct) (take 3 hits)
                       (map log_text (fetch_log cfg up (take 3 hits) s1)))))], 200)"
proof -
  from enrich_by_log [of mk_search_entry search_entry_of, OF mk_search_entry_ok log]
  obtain s' where len: "length (fetch_log cfg up (take 3 hits) s1) = length (take 3 hits)"
    and en: "enrich cfg up mk_search_entry (take 3 hits) s1
        = (Inr (map2 search_entry_of (take 3 hits) (map log_text (fetch_log cfg up (take 3 hits) s1))), s')"
    by auto
  have "try_map (search_block pstr pct)
          (map2 search_entry_of (take 3 hits) (map log_text (fetch_log cfg up (take 3 hits) s1)))
        = Inr (map2 (spec_search_block pstr pct) (take 3 hits)
                 (map log_text (fetch_log cfg up (take 3 hits) s1)))"
    using search_blocks [OF _ pct] len by simp
  then show ?thesis
    unfolding search_unfold [OF q] call
    using hits en by simp
qed

lemmas demo_defs =
  search_def ask_def call_tool_def ensure_session_def initial_def next_id_def post_def
  raise_for_status_def header_get_def Let_def tool_response_def new_calls_def demo_error_def
  demo_hits_def session_response_def hits_response_def text_response_def error_response_def
  fetch_hit_def open_file_args_def mk_search_entry_def mk_ask_entry_def search_block_def
  ask_block_def demo_pct_def demo_args_def demo_s1_def

lemma open_file_args_not_ok:
  assumes "\<not> hit_ok h"
  shows "\<exists>e. open_file_args h = Inl e"
proof (cases "open_file_args h")
  case (Inr p)
  with assms show ?thesis using open_file_args_Inr by (cases p) auto
qed auto

lemma enrich_calls_all:
  assumes "enrich cfg up mk hs s = (r, s')"
  shows "prefix (new_calls s s') (map spec_open_call hs)
       \<and> (\<not> isl r \<longrightarrow> new_calls s s' = map spec_open_call hs)"
  using assms
proof (induction hs arbitrary: s r s')
  case Nil
  then show ?case by auto
next
  case (Cons h hs)
  let ?rp = "field h ''RelPath'' (JStr '''')"
  show ?case
  proof (cases "hit_ok h")
    case False
    then obtain e where "open_file_args h = Inl e" using open_file_args_not_ok by blast
    with Cons.prems have "r = Inl e" "s' = s" by (auto simp: fetch_hit_def)
    then show ?thesis by simp
  next
    case h: True
    obtain r0 s1 where call: "call_tool cfg up ''dir2mcp.open_file'' (spec_open_args h) s = (r0, s1)"
      by fastforce
    then obtain xs where xs: "sent s1 = sent s @ xs"
        "tool_calls xs = [] \<and> isl r0 \<or> tool_calls xs = [spec_open_call h]"
      using call_tool_sent_strong unfolding spec_open_call_def by blast
    have fh: "fetch_hit cfg up h s =
        (case r0 of Inl e \<Rightarrow> (Inl e, s1) | Inr source \<Rightarrow> (Inr (?rp, source_text source), s1))"
      by (simp add: fetch_hit_def open_file_args_ok [OF h] call split: sum.splits)
    show ?thesis
    proof (cases r0)
      case (Inl e)
      with Cons.prems fh have "r = Inl e" "s' = s1" by auto
      with xs show ?thesis by (auto simp: new_calls_append)
    next
      case (Inr source)
      with xs have tc: "tool_calls xs = [spec_open_call h]" by auto
      show ?thesis
      proof (cases "mk h ?rp (source_text source)")
        case (Inl e)
        with Cons.prems fh Inr have "r = Inl e" "s' = s1" by auto
        with xs tc show ?thesis by (auto simp: new_calls_append)
      next
        case mk: (Inr x)
        obtain r2 s2 where e: "enrich cfg up mk hs s1 = (r2, s2)" by fastforce
        then obtain ys where ys: "sent s2 = sent s1 @ ys" using enrich_sent by blast
        from Cons.prems fh Inr mk e have rs: "s' = s2" "isl r = isl r2"
          by (auto split: sum.splits)
        from Cons.IH [OF e]
        have "prefix (new_calls s1 s2) (map spec_open_call hs)"
          "\<not> isl r2 \<longrightarrow> new_calls s1 s2 = map spec_open_call hs" by auto
        with rs tc new_calls_trans [OF xs(1) ys] show ?thesis by auto
      qed
    qed
  qed
qed

lemma search_after:
  assumes q: "map_of kvs ''query'' = Some q" "truthy q"
    and call: "call_tool cfg up ''dir2mcp.search''
                 (JObj [(''query'', q), (''k'', case map_of kvs ''k'' of None \<Rightarrow> JInt 3 | Some v \<Rightarrow> v)]) s
               = (Inr (Val text st), s1)"
    and hits: "dict_get st ''hits'' (JArr []) = Inr (JArr hits)"
  shows "\<exists>r. enrich cfg up mk_search_entry (take 3 hits) s1
              = (r, snd (search pstr pct cfg up (JObj kvs) s))
           \<and> (\<not> isl (fst (search pstr pct cfg up (JObj kvs) s)) \<longrightarrow> \<not> isl r)"
  unfolding search_unfold [OF q] call
  using hits by (auto split: sum.splits prod.splits)

lemma ask_after:
  assumes q: "map_of kvs ''question'' = Some q" "truthy q"
    and call: "call_tool cfg up ''dir2mcp.search'' (JObj [(''query'', q), (''k'', JInt 3)]) s
               = (Inr (Val text st), s1)"
    and hits: "dict_get st ''hits'' (JArr []) = Inr (JArr hits)"
  shows "\<exists>r. enrich cfg up mk_ask_entry (take 3 hits) s1
              = (r, snd (ask pstr cfg up (JObj kvs) s))
           \<and> (\<not> isl (fst (ask pstr cfg up (JObj kvs) s)) \<longrightarrow> \<not> isl r)"
  unfolding ask_unfold [OF q] call
  using hits by (auto split: sum.splits prod.splits)

lemma demo_call:
  "call_tool demo_cfg demo_upstream ''dir2mcp.search'' demo_args initial
     = (Inr (Val '''' (JObj [(''hits'', JArr demo_hits)])), demo_s1)"
  by (simp add: demo_defs demo_upstream_def)

lemma demo_log:
  "fetch_log demo_cfg demo_upstream (take 3 demo_hits) demo_s1
     = [Inr (Val ''alpha'' JNull), Inr (Tup (JObj [(''error'', demo_error)]) 500),
        Inr (Val ''alpha'' JNull)]"
  by (simp add: demo_defs demo_upstream_def)

section \<open>Facts about the concurrent runs\<close>






lemma es_run_append: "es_run cfg up (xs @ ys) s = es_run cfg up ys (es_run cfg up xs s)"
  by (induction xs arbitrary: s) auto




text \<open>The steps, case by case.\<close>

lemma es_step_acquire:
  "es_pc s t = EsIdle \<Longrightarrow> session_lock s = None \<Longrightarrow>
   es_step cfg up t s = s\<lparr>session_lock := Some t, es_pc := (es_pc s)(t := EsLocked)\<rparr>"
  by (simp add: es_step_def)


lemma es_step_cached:
  "es_pc s t = EsLocked \<Longrightarrow> session_id (shared s) = Some sid \<Longrightarrow> sid \<noteq> [] \<Longrightarrow>
   es_step cfg up t s = finish t (Inr sid) s"
  by (cases sid) (simp_all add: es_step_def)

lemma es_step_post:
  "es_pc s t = EsLocked \<Longrightarrow> session_unset (shared s) \<Longrightarrow>
   es_step cfg up t s =
     s\<lparr>shared := (shared s)\<lparr>request_id := request_id (shared s) + 1,
                             sent := sent (shared s) @ [initialize_request cfg (request_id (shared s) + 1)]\<rparr>,
       es_pc := (es_pc s)(t := EsWaiting (up (sent (shared s))
                                   (initialize_request cfg (request_id (shared s) + 1))))\<rparr>"
  by (auto simp: es_step_def session_unset_def next_id_def post_def
      split: option.splits list.splits)

lemma es_step_receive:
  "es_pc s t = EsWaiting out \<Longrightarrow>
   es_step cfg up t s =
     (case out of
        TransportError \<Rightarrow> finish t (Inl RequestException) s
      | Response r \<Rightarrow>
          if raises_for_status r then finish t (Inl (HTTPError (status_code r))) s
          else finish t (Inr (header_get (resp_headers r) ''Mcp-Session-Id'' ''''))
                 (s\<lparr>shared := (shared s)\<lparr>session_id :=
                        Some (header_get (resp_headers r) ''Mcp-Session-Id'' '''')\<rparr>\<rparr>))"
  by (simp add: es_step_def raise_for_status_def raises_for_status_def Let_def
      split: outcome.splits)

lemma es_step_again:
  "es_pc s t = EsDone r \<Longrightarrow> es_step cfg up t s = s\<lparr>es_pc := (es_pc s)(t := EsIdle)\<rparr>"
  by (simp add: es_step_def)













text \<open>
  A call that no other thread interleaves with does what the sequential functions do:
  five steps of \<^verbatim>\<open>_next_id\<close> issue the successor of the counter, and three steps of
  \<^verbatim>\<open>_ensure_session\<close> leave the globals and the result of \<open>ensure_session\<close>.
\<close>

lemma id_solo:
  assumes "id_lock s = None" "id_pc s t = IdIdle"
  shows "counter (id_run [t, t, t, t, t] s) = counter s + 1
       \<and> issued (id_run [t, t, t, t, t] s) = issued s @ [counter s + 1]
       \<and> id_lock (id_run [t, t, t, t, t] s) = None"
  using assms by (simp add: id_step_def)

lemma es_solo:
  assumes "session_lock s = None" "es_pc s t = EsIdle"
  shows "shared (es_run cfg up [t, t, t] s) = snd (ensure_session cfg up (shared s))
       \<and> completed (es_run cfg up [t, t, t] s)
           = completed s @ [(t, fst (ensure_session cfg up (shared s)))]"
proof -
  define s1 where "s1 = es_step cfg up t s"
  define s2 where "s2 = es_step cfg up t s1"
  have run: "es_run cfg up [t, t, t] s = es_step cfg up t s2"
    by (simp add: s1_def s2_def)
  have e1: "s1 = s\<lparr>session_lock := Some t, es_pc := (es_pc s)(t := EsLocked)\<rparr>"
    using assms by (simp add: s1_def es_step_acquire)
  have pc1: "es_pc s1 t = EsLocked" and sh1: "shared s1 = shared s"
    and co1: "completed s1 = completed s"
    by (simp_all add: e1)
  show ?thesis
  proof (cases "session_unset (shared s)")
    case True
    then have un1: "session_unset (shared s1)" by (simp add: sh1)
    let ?out = "up (sent (shared s)) (initialize_request cfg (request_id (shared s) + 1))"
    have e2: "s2 = s1\<lparr>shared := (shared s)\<lparr>request_id := request_id (shared s) + 1,
                             sent := sent (shared s) @ [initialize_request cfg (request_id (shared s) + 1)]\<rparr>,
                    es_pc := (es_pc s1)(t := EsWaiting ?out)\<rparr>"
      unfolding s2_def es_step_post [OF pc1 un1] by (simp add: sh1)
    have pc2: "es_pc s2 t = EsWaiting ?out" by (simp add: e2)
    show ?thesis
      unfolding run ensure_session_unset [OF True] es_step_receive [OF pc2]
      by (simp add: e2 co1 finish_def split: outcome.splits)
  next
    case False
    from ensure_session_set [OF False, of cfg up]
    obtain sid where sid: "session_id (shared s) = Some sid" "sid \<noteq> []"
        "ensure_session cfg up (shared s) = (Inr sid, shared s)" by blast
    have se1: "session_id (shared s1) = Some sid" using sid by (simp add: sh1)
    have e2: "s2 = finish t (Inr sid) s1"
      unfolding s2_def by (rule es_step_cached [OF pc1 se1 sid(2)])
    have pc2: "es_pc s2 t = EsDone (Inr sid)" by (simp add: e2 finish_def)
    show ?thesis
      unfolding run es_step_again [OF pc2]
      by (simp add: e2 sh1 co1 sid finish_def)
  qed
qed

section \<open>One session for concurrent callers\<close>




section \<open>A JSON-RPC error of the search call\<close>

text \<open>
  Claim C2. Take a \<^verbatim>\<open>POST /search\<close> whose body is an object with a non-empty \<^verbatim>\<open>query\<close>,
  a session that can be obtained, and an upstream that answers the \<^verbatim>\<open>dir2mcp.search\<close>
  call with a status that is not 4xx or 5xx and a JSON object carrying an \<^verbatim>\<open>error\<close>
  field \<open>e\<close>. Then the route answers status 500 with the body \<^verbatim>\<open>{"error": e}\<close>, the
  payload \<open>e\<close> unchanged, and the only tool call posted during the request is that
  search call: no \<^verbatim>\<open>dir2mcp.open_file\<close> call is made.
\<close>

theorem search_tool_error_passthrough:
  assumes body: "request_json = JObj kvs" "map_of kvs ''query'' = Some q" "truthy q"
    and k: "k = (case map_of kvs ''k'' of None \<Rightarrow> JInt 3 | Some v \<Rightarrow> v)"
    and sess: "ensure_session cfg up s = (Inr sid, s1)"
    and resp: "up (sent s1) (tool_request cfg sid (request_id s1 + 1) ''dir2mcp.search''
                 (JObj [(''query'', q), (''k'', k)])) = Response r"
    and ok: "\<not> raises_for_status r"
    and err: "resp_json r = Some (JObj data)" "map_of data ''error'' = Some e"
  shows "\<exists>s'. search pstr pct cfg up request_json s = (Inr (JObj [(''error'', e)], 500), s')
            \<and> new_calls s s' = [(''dir2mcp.search'', JObj [(''query'', q), (''k'', k)])]"
proof -
  let ?args = "JObj [(''query'', q), (''k'', k)]"
  let ?req = "tool_request cfg sid (request_id s1 + 1) ''dir2mcp.search'' ?args"
  let ?s2 = "s1\<lparr>request_id := request_id s1 + 1, sent := sent s1 @ [?req]\<rparr>"
  have ne: "kvs \<noteq> []" using body(2) by auto
  have call: "call_tool cfg up ''dir2mcp.search'' ?args s = (Inr (Tup (JObj [(''error'', e)]) 500), ?s2)"
    using call_tool_session [OF sess] resp tool_response_error [OF ok err] by simp
  have res: "search pstr pct cfg up request_json s = (Inr (JObj [(''error'', e)], 500), ?s2)"
    using body ne k call by (simp add: search_def)
  obtain xs where xs: "sent s1 = sent s @ xs" "tool_calls xs = []"
    using ensure_session_sent [OF sess] by blast
  have "new_calls s ?s2 = [(''dir2mcp.search'', ?args)]"
    using xs by (simp add: new_calls_def)
  with res show ?thesis by blast
qed

theorem search_tool_error_passthrough_witness:
  "\<exists>s'. search demo_pstr demo_pct demo_cfg search_error_upstream
            (JObj [(''query'', JStr ''foo'')]) initial
          = (Inr (JObj [(''error'', demo_error)], 500), s')
        \<and> new_calls initial s'
          = [(''dir2mcp.search'', JObj [(''query'', JStr ''foo''), (''k'', JInt 3)])]"
  by (rule search_tool_error_passthrough
        [where kvs = "[(''query'', JStr ''foo'')]" and sid = "''abc''"
           and ?s1.0 = "\<lparr>session_id = Some ''abc'', request_id = 1,
                          sent = [initialize_request demo_cfg 1]\<rparr>"
           and r = "\<lparr>status_code = 200, resp_headers = [],
                      resp_json = Some (JObj [(''jsonrpc'', JStr ''2.0''), (''error'', demo_error)])\<rparr>"
           and data = "[(''jsonrpc'', JStr ''2.0''), (''error'', demo_error)]"])
     (simp_all add: ensure_session_def initial_def next_id_def post_def search_error_upstream_def
        raise_for_status_def raises_for_status_def header_get_def demo_error_def Let_def)

section \<open>Failures of the per-hit fetch\<close>

text \<open>
  Claim C3 says that a failing \<^verbatim>\<open>dir2mcp.open_file\<close> call never aborts the pipeline. That
  holds for a call that returns a JSON-RPC error only. Against an upstream that serves
  \<^verbatim>\<open>a.md\<close> and answers the \<^verbatim>\<open>open_file\<close> call for \<^verbatim>\<open>b.md\<close> with the status 503, the
  first fetch succeeds, the second raises in \<^verbatim>\<open>raise_for_status\<close>, nothing catches the
  exception, and both routes fail.
\<close>

theorem open_file_transport_failure_counterexample:
  "fetch_log demo_cfg flaky_upstream (take 3 demo_hits) demo_s1
     = [Inr (Val ''alpha'' JNull), Inl (HTTPError 503)]
   \<and> fst (search demo_pstr demo_pct demo_cfg flaky_upstream (JObj [(''query'', JStr ''foo'')]) initial)
     = Inl (HTTPError 503)
   \<and> fst (ask demo_pstr demo_cfg flaky_upstream (JObj [(''question'', JStr ''foo'')]) initial)
     = Inl (HTTPError 503)"
  by (simp add: demo_defs flaky_upstream_def)

text \<open>
  Claim C3 as amended. Take a run in which the search call returned its hits and every
  per-hit \<^verbatim>\<open>dir2mcp.open_file\<close> call returned, be it a result or a JSON-RPC error. Then the
  loop of either route completes with one entry for each of the (at most three) hits
  processed; the content of an entry is the text of its result, and the empty string
  where the call returned a JSON-RPC error; and the request succeeds with status 200
  (for \<^verbatim>\<open>/search\<close>, given scores that can be rendered as percentages).
\<close>

theorem tool_errors_are_swallowed:
  assumes call: "call_tool cfg up ''dir2mcp.search'' args s = (Inr (Val text st), s1)"
    and hits: "dict_get st ''hits'' (JArr []) = Inr (JArr hits)"
    and log: "\<forall>x \<in> set (fetch_log cfg up (take 3 hits) s1). \<not> isl x"
  shows "(\<exists>es fs s2 s3.
            enrich cfg up mk_search_entry (take 3 hits) s1 = (Inr es, s2)
          \<and> enrich cfg up mk_ask_entry (take 3 hits) s1 = (Inr fs, s3)
          \<and> length es = length (take 3 hits) \<and> length fs = length (take 3 hits)
          \<and> (\<forall>i < length (take 3 hits).
                e_content (es ! i) = log_text (fetch_log cfg up (take 3 hits) s1 ! i)
              \<and> e_content (fs ! i) = log_text (fetch_log cfg up (take 3 hits) s1 ! i)
              \<and> (\<forall>j c. fetch_log cfg up (take 3 hits) s1 ! i = Inr (Tup j c) \<longrightarrow>
                     e_content (es ! i) = '''' \<and> e_content (fs ! i) = '''')))
       \<and> (\<forall>kvs q. map_of kvs ''query'' = Some q \<and> truthy q
           \<and> args = JObj [(''query'', q),
                           (''k'', case map_of kvs ''k'' of None \<Rightarrow> JInt 3 | Some v \<Rightarrow> v)]
           \<and> (\<forall>h \<in> set (take 3 hits). \<not> isl (pct (field h ''Score'' (JInt 0)))) \<longrightarrow>
           (\<exists>txt. fst (search pstr pct cfg up (JObj kvs) s) = Inr (JObj [(''result'', JStr txt)], 200)))
       \<and> (\<forall>kvs q. map_of kvs ''question'' = Some q \<and> truthy q
           \<and> args = JObj [(''query'', q), (''k'', JInt 3)] \<longrightarrow>
           (\<exists>txt. fst (ask pstr cfg up (JObj kvs) s) = Inr (JObj [(''result'', JStr txt)], 200)))"
proof (intro conjI)
  let ?hs = "take 3 hits"
  let ?log = "fetch_log cfg up ?hs s1"
  from enrich_by_log [of mk_search_entry search_entry_of, OF mk_search_entry_ok log]
  obtain s2 where len: "length ?log = length ?hs"
    and es: "enrich cfg up mk_search_entry ?hs s1 = (Inr (map2 search_entry_of ?hs (map log_text ?log)), s2)"
    by auto
  from enrich_by_log [of mk_ask_entry ask_entry_of, OF mk_ask_entry_ok log]
  obtain s3 where
    fs: "enrich cfg up mk_ask_entry ?hs s1 = (Inr (map2 ask_entry_of ?hs (map log_text ?log)), s3)"
    by auto
  have c1: "e_content (map2 search_entry_of ?hs (map log_text ?log) ! i) = log_text (?log ! i)"
    if "i < length ?hs" for i
    using that len by (simp add: search_entry_of_def)
  have c2: "e_content (map2 ask_entry_of ?hs (map log_text ?log) ! i) = log_text (?log ! i)"
    if "i < length ?hs" for i
    using that len by (simp add: ask_entry_of_def)
  show "\<exists>es fs s2 s3.
            enrich cfg up mk_search_entry ?hs s1 = (Inr es, s2)
          \<and> enrich cfg up mk_ask_entry ?hs s1 = (Inr fs, s3)
          \<and> length es = length ?hs \<and> length fs = length ?hs
          \<and> (\<forall>i < length ?hs.
                e_content (es ! i) = log_text (?log ! i)
              \<and> e_content (fs ! i) = log_text (?log ! i)
              \<and> (\<forall>j c. ?log ! i = Inr (Tup j c) \<longrightarrow>
                     e_content (es ! i) = '''' \<and> e_content (fs ! i) = ''''))"
    apply (rule exI [of _ "map2 search_entry_of ?hs (map log_text ?log)"])
    apply (rule exI [of _ "map2 ask_entry_of ?hs (map log_text ?log)"])
    apply (rule exI [of _ s2])
    apply (rule exI [of _ s3])
    using es fs len c1 c2 by (auto simp: search_entry_of_def ask_entry_of_def)
next
  show "\<forall>kvs q. map_of kvs ''query'' = Some q \<and> truthy q
           \<and> args = JObj [(''query'', q),
                           (''k'', case map_of kvs ''k'' of None \<Rightarrow> JInt 3 | Some v \<Rightarrow> v)]
           \<and> (\<forall>h \<in> set (take 3 hits). \<not> isl (pct (field h ''Score'' (JInt 0)))) \<longrightarrow>
           (\<exists>txt. fst (search pstr pct cfg up (JObj kvs) s) = Inr (JObj [(''result'', JStr txt)], 200))"
    using search_result [OF _ _ _ hits log] call by blast
next
  show "\<forall>kvs q. map_of kvs ''question'' = Some q \<and> truthy q
           \<and> args = JObj [(''query'', q), (''k'', JInt 3)] \<longrightarrow>
           (\<exists>txt. fst (ask pstr cfg up (JObj kvs) s) = Inr (JObj [(''result'', JStr txt)], 200))"
    using ask_result [OF _ _ _ hits log] call by blast
qed

theorem tool_errors_are_swallowed_witness:
  "fetch_log demo_cfg demo_upstream (take 3 demo_hits) demo_s1
     = [Inr (Val ''alpha'' JNull), Inr (Tup (JObj [(''error'', demo_error)]) 500),
        Inr (Val ''alpha'' JNull)]
   \<and> (\<exists>txt. fst (search demo_pstr demo_pct demo_cfg demo_upstream
                       (JObj [(''query'', JStr ''foo'')]) initial)
              = Inr (JObj [(''result'', JStr txt)], 200))
   \<and> (\<exists>txt. fst (ask demo_pstr demo_cfg demo_upstream
                       (JObj [(''question'', JStr ''foo'')]) initial)
              = Inr (JObj [(''result'', JStr txt)], 200))"
proof -
  have hits: "dict_get (JObj [(''hits'', JArr demo_hits)]) ''hits'' (JArr []) = Inr (JArr demo_hits)"
    by simp
  have log: "\<forall>x \<in> set (fetch_log demo_cfg demo_upstream (take 3 demo_hits) demo_s1). \<not> isl x"
    by (simp add: demo_log)
  have pct: "\<forall>h \<in> set (take 3 demo_hits). \<not> isl (demo_pct (field h ''Score'' (JInt 0)))"
    by (simp add: demo_hits_def demo_pct_def)
  note inst = tool_errors_are_swallowed [OF demo_call hits log, where pstr = demo_pstr and pct = demo_pct]
  have "\<exists>txt. fst (search demo_pstr demo_pct demo_cfg demo_upstream
                       (JObj [(''query'', JStr ''foo'')]) initial)
              = Inr (JObj [(''result'', JStr txt)], 200)"
    using inst [THEN conjunct2, THEN conjunct1, THEN spec, of "[(''query'', JStr ''foo'')]",
                THEN spec, of "JStr ''foo''"] pct
    by (simp add: demo_args_def)
  moreover
  have "\<exists>txt. fst (ask demo_pstr demo_cfg demo_upstream
                       (JObj [(''question'', JStr ''foo'')]) initial)
              = Inr (JObj [(''result'', JStr txt)], 200)"
    using inst [THEN conjunct2, THEN conjunct2, THEN spec, of "[(''question'', JStr ''foo'')]",
                THEN spec, of "JStr ''foo''"]
    by (simp add: demo_args_def)
  ultimately show ?thesis using demo_log by simp
qed

section \<open>A request without a query\<close>

text \<open>
  Claim C4 says that every \<^verbatim>\<open>POST /search\<close> whose body lacks a non-empty \<^verbatim>\<open>query\<close> field
  is answered with status 400. A body that is a non-empty string has no \<^verbatim>\<open>query\<close> field,
  but it is true in Python's sense, so line 107 keeps it, and it has no \<^verbatim>\<open>get\<close>: line 108
  raises, and the route does not answer 400.
\<close>

theorem search_string_body_counterexample:
  "search demo_pstr demo_pct demo_cfg unreachable_upstream (JStr ''abc'') initial
     = (Inl DuckTypeError, initial)"
  by (simp add: search_def)

text \<open>
  Claim C4 as amended. For every \<^verbatim>\<open>POST /search\<close> whose body is an object without
  \<^verbatim>\<open>query\<close> or with an empty one, or is itself empty (\<^verbatim>\<open>null\<close>, \<^verbatim>\<open>{}\<close>), the route answers
  status 400 with the body \<^verbatim>\<open>{"error": "query is required"}\<close>. For every body that lacks a
  non-empty \<^verbatim>\<open>query\<close> field, whatever its type and whether the route answers or raises,
  the bridge's state is unchanged: nothing was posted upstream (neither \<^verbatim>\<open>initialize\<close>
  nor a tool call), and no request id was taken.
\<close>

theorem search_without_query:
  "(query_missing request_json \<longrightarrow>
      search pstr pct cfg up request_json s =
        (Inr (JObj [(''error'', JStr ''query is required'')], 400), s))
 \<and> (\<not> (\<exists>kvs q. request_json = JObj kvs \<and> map_of kvs ''query'' = Some q \<and> truthy q) \<longrightarrow>
      snd (search pstr pct cfg up request_json s) = s)"
proof (intro conjI impI)
  assume missing: "query_missing request_json"
  show "search pstr pct cfg up request_json s =
          (Inr (JObj [(''error'', JStr ''query is required'')], 400), s)"
  proof (cases request_json)
    case (JObj kvs)
    with missing show ?thesis
      by (cases kvs) (auto simp: search_def split: option.splits)
  qed (use missing in \<open>simp_all add: search_def\<close>)
next
  assume "\<not> (\<exists>kvs q. request_json = JObj kvs \<and> map_of kvs ''query'' = Some q \<and> truthy q)"
  then show "snd (search pstr pct cfg up request_json s) = s"
    by (rule search_no_query_no_contact)
qed

theorem search_without_query_witness:
  "query_missing (JObj [])
   \<and> search demo_pstr demo_pct demo_cfg unreachable_upstream (JObj []) initial
       = (Inr (JObj [(''error'', JStr ''query is required'')], 400), initial)
   \<and> search demo_pstr demo_pct demo_cfg unreachable_upstream (JObj [(''query'', JStr '''')]) initial
       = (Inr (JObj [(''error'', JStr ''query is required'')], 400), initial)
   \<and> snd (search demo_pstr demo_pct demo_cfg unreachable_upstream (JStr ''abc'') initial) = initial"
  using search_without_query [of "JObj []" demo_pstr demo_pct demo_cfg unreachable_upstream initial]
    search_without_query [of "JObj [(''query'', JStr '''')]" demo_pstr demo_pct demo_cfg
                            unreachable_upstream initial]
    search_without_query [of "JStr ''abc''" demo_pstr demo_pct demo_cfg unreachable_upstream initial]
  by simp

section \<open>How the handshake can end\<close>

text \<open>
  Claim C5 says that \<^verbatim>\<open>_ensure_session\<close> fails when the \<^verbatim>\<open>initialize\<close> response carries
  no session header. It does not: line 62 reads the header with the default \<^verbatim>\<open>""\<close>,
  so against an upstream that answers 200 without the header the call returns the
  empty string and stores it.
\<close>

theorem ensure_session_headerless_counterexample:
  "ensure_session demo_cfg headerless_upstream initial =
     (Inr '''', \<lparr>session_id = Some '''', request_id = 1, sent = [initialize_request demo_cfg 1]\<rparr>)"
  by (simp add: ensure_session_def initial_def next_id_def post_def headerless_upstream_def
      raise_for_status_def header_get_def)

text \<open>
  Claim C5 as amended. With no session yet, \<^verbatim>\<open>_ensure_session\<close> raises when the transport
  fails and when the \<^verbatim>\<open>initialize\<close> response has a 4xx or 5xx status, and in both cases
  \<^verbatim>\<open>_session_id\<close> is left as it was. When the response has another status and no
  \<^verbatim>\<open>Mcp-Session-Id\<close> header, the call does not fail: it returns the empty string and
  stores it, which the next call's \<^verbatim>\<open>if _session_id\<close> treats like no session.
\<close>

theorem ensure_session_outcomes:
  assumes "session_unset s"
  shows "(up (sent s) (initialize_request cfg (request_id s + 1)) = TransportError \<longrightarrow>
            fst (ensure_session cfg up s) = Inl RequestException
          \<and> session_id (snd (ensure_session cfg up s)) = session_id s)
       \<and> (\<forall>r. up (sent s) (initialize_request cfg (request_id s + 1)) = Response r
              \<and> raises_for_status r \<longrightarrow>
            fst (ensure_session cfg up s) = Inl (HTTPError (status_code r))
          \<and> session_id (snd (ensure_session cfg up s)) = session_id s)
       \<and> (\<forall>r. up (sent s) (initialize_request cfg (request_id s + 1)) = Response r
              \<and> \<not> raises_for_status r \<and> map_of (resp_headers r) ''Mcp-Session-Id'' = None \<longrightarrow>
            fst (ensure_session cfg up s) = Inr ''''
          \<and> session_id (snd (ensure_session cfg up s)) = Some ''''
          \<and> session_unset (snd (ensure_session cfg up s)))"
  unfolding ensure_session_unset [OF assms]
  by (auto simp: header_get_def session_unset_def)

theorem ensure_session_outcomes_witness:
  "session_unset initial
   \<and> fst (ensure_session demo_cfg unreachable_upstream initial) = Inl RequestException
   \<and> session_id (snd (ensure_session demo_cfg unreachable_upstream initial)) = None
   \<and> fst (ensure_session demo_cfg unavailable_upstream initial) = Inl (HTTPError 503)
   \<and> session_id (snd (ensure_session demo_cfg unavailable_upstream initial)) = None
   \<and> fst (ensure_session demo_cfg headerless_upstream initial) = Inr ''''
   \<and> session_id (snd (ensure_session demo_cfg headerless_upstream initial)) = Some ''''"
  using ensure_session_outcomes [of initial unreachable_upstream demo_cfg]
    ensure_session_outcomes [of initial unavailable_upstream demo_cfg]
    ensure_session_outcomes [of initial headerless_upstream demo_cfg]
  by (simp add: session_unset_def initial_def unreachable_upstream_def unavailable_upstream_def
      headerless_upstream_def raises_for_status_def)

section \<open>Request identifiers under concurrent callers\<close>



section \<open>Which files are fetched, and with which arguments\<close>

text \<open>
  Claim C7. After a successful search call whose structured result holds the list
  \<open>hits\<close>, the \<^verbatim>\<open>dir2mcp.open_file\<close> calls a route posts are, in this order, those for the
  first three hits at most, each with the arguments the specification gives
  (\<open>spec_open_args\<close>: \<^verbatim>\<open>rel_path\<close>, \<^verbatim>\<open>max_chars = 3000\<close>, and \<^verbatim>\<open>start_line\<close> and
  \<^verbatim>\<open>end_line\<close>, defaulting to 1 and 100, only when the kind of the span is \<^verbatim>\<open>"lines"\<close>).
  Whatever happens, the calls posted are an initial part of that list; when the route
  returns a response, they are the whole list. This holds for \<^verbatim>\<open>/search\<close> and for
  \<^verbatim>\<open>/ask\<close>.
\<close>

theorem open_file_calls_follow_hits:
  assumes call: "call_tool cfg up ''dir2mcp.search'' args s = (Inr (Val text st), s1)"
    and hits: "dict_get st ''hits'' (JArr []) = Inr (JArr hits)"
  shows "(\<forall>kvs q. map_of kvs ''query'' = Some q \<and> truthy q
           \<and> args = JObj [(''query'', q),
                           (''k'', case map_of kvs ''k'' of None \<Rightarrow> JInt 3 | Some v \<Rightarrow> v)] \<longrightarrow>
           prefix (new_calls s1 (snd (search pstr pct cfg up (JObj kvs) s)))
                  (map spec_open_call (take 3 hits))
         \<and> (\<not> isl (fst (search pstr pct cfg up (JObj kvs) s)) \<longrightarrow>
              new_calls s1 (snd (search pstr pct cfg up (JObj kvs) s))
                = map spec_open_call (take 3 hits)))
       \<and> (\<forall>kvs q. map_of kvs ''question'' = Some q \<and> truthy q
           \<and> args = JObj [(''query'', q), (''k'', JInt 3)] \<longrightarrow>
           prefix (new_calls s1 (snd (ask pstr cfg up (JObj kvs) s)))
                  (map spec_open_call (take 3 hits))
         \<and> (\<not> isl (fst (ask pstr cfg up (JObj kvs) s)) \<longrightarrow>
              new_calls s1 (snd (ask pstr cfg up (JObj kvs) s))
                = map spec_open_call (take 3 hits)))"
proof (intro conjI allI impI; elim conjE)
  fix kvs q
  assume q: "map_of kvs ''query'' = Some q" "truthy q"
    and a: "args = JObj [(''query'', q),
                         (''k'', case map_of kvs ''k'' of None \<Rightarrow> JInt 3 | Some v \<Rightarrow> v)]"
  let ?res = "search pstr pct cfg up (JObj kvs) s"
  from search_after [OF q call [unfolded a] hits, of pstr pct]
  obtain r where r: "enrich cfg up mk_search_entry (take 3 hits) s1 = (r, snd ?res)"
      "\<not> isl (fst ?res) \<longrightarrow> \<not> isl r" by blast
  from enrich_calls_all [OF r(1)] r(2)
  show "prefix (new_calls s1 (snd ?res)) (map spec_open_call (take 3 hits))"
    and "\<not> isl (fst ?res) \<Longrightarrow> new_calls s1 (snd ?res) = map spec_open_call (take 3 hits)"
    by auto
next
  fix kvs q
  assume q: "map_of kvs ''question'' = Some q" "truthy q"
    and a: "args = JObj [(''query'', q), (''k'', JInt 3)]"
  let ?res = "ask pstr cfg up (JObj kvs) s"
  from ask_after [OF q call [unfolded a] hits, of pstr]
  obtain r where r: "enrich cfg up mk_ask_entry (take 3 hits) s1 = (r, snd ?res)"
      "\<not> isl (fst ?res) \<longrightarrow> \<not> isl r" by blast
  from enrich_calls_all [OF r(1)] r(2)
  show "prefix (new_calls s1 (snd ?res)) (map spec_open_call (take 3 hits))"
    and "\<not> isl (fst ?res) \<Longrightarrow> new_calls s1 (snd ?res) = map spec_open_call (take 3 hits)"
    by auto
qed

theorem open_file_calls_follow_hits_witness:
  "call_tool demo_cfg demo_upstream ''dir2mcp.search'' demo_args initial
     = (Inr (Val '''' (JObj [(''hits'', JArr demo_hits)])), demo_s1)
   \<and> new_calls demo_s1 (snd (search demo_pstr demo_pct demo_cfg demo_upstream
                               (JObj [(''query'', JStr ''foo'')]) initial))
     = [(''dir2mcp.open_file'', JObj [(''rel_path'', JStr ''a.md''), (''max_chars'', JInt 3000),
                                      (''start_line'', JInt 5), (''end_line'', JInt 100)]),
        (''dir2mcp.open_file'', JObj [(''rel_path'', JStr ''b.md''), (''max_chars'', JInt 3000)]),
        (''dir2mcp.open_file'', JObj [(''rel_path'', JStr ''c.md''), (''max_chars'', JInt 3000)])]
   \<and> new_calls demo_s1 (snd (ask demo_pstr demo_cfg demo_upstream
                               (JObj [(''question'', JStr ''foo'')]) initial))
     = [(''dir2mcp.open_file'', JObj [(''rel_path'', JStr ''a.md''), (''max_chars'', JInt 3000),
                                      (''start_line'', JInt 5), (''end_line'', JInt 100)]),
        (''dir2mcp.open_file'', JObj [(''rel_path'', JStr ''b.md''), (''max_chars'', JInt 3000)]),
        (''dir2mcp.open_file'', JObj [(''rel_path'', JStr ''c.md''), (''max_chars'', JInt 3000)])]"
proof -
  have call: "call_tool demo_cfg demo_upstream ''dir2mcp.search'' demo_args initial
     = (Inr (Val '''' (JObj [(''hits'', JArr demo_hits)])), demo_s1)"
    by (simp add: demo_defs demo_upstream_def)
  have hits: "dict_get (JObj [(''hits'', JArr demo_hits)]) ''hits'' (JArr []) = Inr (JArr demo_hits)"
    by simp
  have ok1: "\<not> isl (fst (search demo_pstr demo_pct demo_cfg demo_upstream
                               (JObj [(''query'', JStr ''foo'')]) initial))"
    by (simp add: demo_defs demo_upstream_def)
  have ok2: "\<not> isl (fst (ask demo_pstr demo_cfg demo_upstream
                               (JObj [(''question'', JStr ''foo'')]) initial))"
    by (simp add: demo_defs demo_upstream_def)
  have plan: "map spec_open_call (take 3 demo_hits)
     = [(''dir2mcp.open_file'', JObj [(''rel_path'', JStr ''a.md''), (''max_chars'', JInt 3000),
                                      (''start_line'', JInt 5), (''end_line'', JInt 100)]),
        (''dir2mcp.open_file'', JObj [(''rel_path'', JStr ''b.md''), (''max_chars'', JInt 3000)]),
        (''dir2mcp.open_file'', JObj [(''rel_path'', JStr ''c.md''), (''max_chars'', JInt 3000)])]"
    by (simp add: demo_hits_def spec_open_call_def spec_open_args_def)
  from open_file_calls_follow_hits [OF call hits, of demo_pstr demo_pct] ok1 ok2 call plan
  show ?thesis by (simp add: demo_args_def)
qed

section \<open>The composite text\<close>

text \<open>
  Claim C8. Take a run in which the search call returned its hits and every per-hit
  fetch returned. The \<^verbatim>\<open>/search\<close> route answers 200 with a \<^verbatim>\<open>result\<close> that consists of
  one block for each of the hits processed, in the order of the hits, each block being
  \<^verbatim>\<open>=== {file} (relevance: {score as a percentage}) ===\<close>, a newline and the content,
  the blocks separated by a blank line. The \<^verbatim>\<open>/ask\<close> route answers 200 with a
  \<^verbatim>\<open>result\<close> that starts with the question and continues with the blocks
  \<^verbatim>\<open>=== Source: {file} ===\<close>, a newline and the content, separated the same way.
\<close>

theorem composite_result_text:
  assumes call: "call_tool cfg up ''dir2mcp.search'' args s = (Inr (Val text st), s1)"
    and hits: "dict_get st ''hits'' (JArr []) = Inr (JArr hits)"
    and log: "\<forall>x \<in> set (fetch_log cfg up (take 3 hits) s1). \<not> isl x"
  shows "(\<forall>kvs q. map_of kvs ''query'' = Some q \<and> truthy q
           \<and> args = JObj [(''query'', q),
                           (''k'', case map_of kvs ''k'' of None \<Rightarrow> JInt 3 | Some v \<Rightarrow> v)]
           \<and> (\<forall>h \<in> set (take 3 hits). \<not> isl (pct (field h ''Score'' (JInt 0)))) \<longrightarrow>
           fst (search pstr pct cfg up (JObj kvs) s) =
             Inr (JObj [(''result'',
                    JStr (py_join (NL @ NL)
                            (map2 (spec_search_block pstr pct) (take 3 hits)
                               (map log_text (fetch_log cfg up (take 3 hits) s1)))))], 200))
       \<and> (\<forall>kvs q. map_of kvs ''question'' = Some q \<and> truthy q
           \<and> args = JObj [(''query'', q), (''k'', JInt 3)] \<longrightarrow>
           fst (ask pstr cfg up (JObj kvs) s) =
             Inr (JObj [(''result'',
                    JStr (''Question: '' @ py_str pstr q @ NL @ NL
                          @ ''Relevant document content:'' @ NL @ NL
                          @ py_join (NL @ NL)
                              (map2 (spec_ask_block pstr) (take 3 hits)
                                 (map log_text (fetch_log cfg up (take 3 hits) s1)))))], 200))"
proof (intro conjI allI impI; elim conjE)
  fix kvs q
  assume q: "map_of kvs ''query'' = Some q" "truthy q"
    and a: "args = JObj [(''query'', q),
                         (''k'', case map_of kvs ''k'' of None \<Rightarrow> JInt 3 | Some v \<Rightarrow> v)]"
    and p: "\<forall>h \<in> set (take 3 hits). \<not> isl (pct (field h ''Score'' (JInt 0)))"
  show "fst (search pstr pct cfg up (JObj kvs) s) =
             Inr (JObj [(''result'',
                    JStr (py_join (NL @ NL)
                            (map2 (spec_search_block pstr pct) (take 3 hits)
                               (map log_text (fetch_log cfg up (take 3 hits) s1)))))], 200)"
    by (rule search_result [OF q call [unfolded a] hits log p])
next
  fix kvs q
  assume q: "map_of kvs ''question'' = Some q" "truthy q"
    and a: "args = JObj [(''query'', q), (''k'', JInt 3)]"
  show "fst (ask pstr cfg up (JObj kvs) s) =
             Inr (JObj [(''result'',
                    JStr (''Question: '' @ py_str pstr q @ NL @ NL
                          @ ''Relevant document content:'' @ NL @ NL
                          @ py_join (NL @ NL)
                              (map2 (spec_ask_block pstr) (take 3 hits)
                                 (map log_text (fetch_log cfg up (take 3 hits) s1)))))], 200)"
    by (rule ask_result [OF q call [unfolded a] hits log])
qed

theorem composite_result_text_witness:
  "fst (search demo_pstr demo_pct demo_cfg demo_upstream (JObj [(''query'', JStr ''foo'')]) initial)
     = Inr (JObj [(''result'',
              JStr (''=== a.md (relevance: 88%) ==='' @ NL @ ''alpha'' @ NL @ NL
                    @ ''=== b.md (relevance: 0%) ==='' @ NL @ NL @ NL
                    @ ''=== c.md (relevance: 75%) ==='' @ NL @ ''alpha''))], 200)
   \<and> fst (ask demo_pstr demo_cfg demo_upstream (JObj [(''question'', JStr ''foo'')]) initial)
     = Inr (JObj [(''result'',
              JStr (''Question: foo'' @ NL @ NL @ ''Relevant document content:'' @ NL @ NL
                    @ ''=== Source: a.md ==='' @ NL @ ''alpha'' @ NL @ NL
                    @ ''=== Source: b.md ==='' @ NL @ NL @ NL
                    @ ''=== Source: c.md ==='' @ NL @ ''alpha''))], 200)"
proof -
  have hits: "dict_get (JObj [(''hits'', JArr demo_hits)]) ''hits'' (JArr []) = Inr (JArr demo_hits)"
    by simp
  have log: "\<forall>x \<in> set (fetch_log demo_cfg demo_upstream (take 3 demo_hits) demo_s1). \<not> isl x"
    by (simp add: demo_log)
  have pct: "\<forall>h \<in> set (take 3 demo_hits). \<not> isl (demo_pct (field h ''Score'' (JInt 0)))"
    by (simp add: demo_hits_def demo_pct_def)
  note inst = composite_result_text [OF demo_call hits log, where pstr = demo_pstr and pct = demo_pct]
  have "fst (search demo_pstr demo_pct demo_cfg demo_upstream (JObj [(''query'', JStr ''foo'')]) initial)
      = Inr (JObj [(''result'',
               JStr (py_join (NL @ NL)
                       (map2 (spec_search_block demo_pstr demo_pct) (take 3 demo_hits)
                          (map log_text (fetch_log demo_cfg demo_upstream (take 3 demo_hits) demo_s1)))))],
             200)"
    using inst [THEN conjunct1, THEN spec, of "[(''query'', JStr ''foo'')]", THEN spec, of "JStr ''foo''"] pct
    by (simp add: demo_args_def)
  moreover
  have "fst (ask demo_pstr demo_cfg demo_upstream (JObj [(''question'', JStr ''foo'')]) initial)
      = Inr (JObj [(''result'',
               JStr (''Question: '' @ py_str demo_pstr (JStr ''foo'') @ NL @ NL
                     @ ''Relevant document content:'' @ NL @ NL
                     @ py_join (NL @ NL)
                         (map2 (spec_ask_block demo_pstr) (take 3 demo_hits)
                            (map log_text (fetch_log demo_cfg demo_upstream (take 3 demo_hits) demo_s1)))))],
             200)"
    using inst [THEN conjunct2, THEN spec, of "[(''question'', JStr ''foo'')]", THEN spec, of "JStr ''foo''"]
    by (simp add: demo_args_def)
  ultimately show ?thesis
    unfolding demo_log
    by (simp add: demo_hits_def spec_search_block_def spec_ask_block_def demo_pct_def)
qed

section \<open>Decoding the response of a tool call\<close>

text \<open>
  Claim C9 says that a body with neither a \<^verbatim>\<open>result\<close> nor an \<^verbatim>\<open>error\<close> field is
  malformed and never a success. The code has no such check: line 89 reads \<^verbatim>\<open>result\<close>
  with the default \<^verbatim>\<open>{}\<close>, so such a body decodes to a success with empty text and no
  structured payload.
\<close>

theorem decode_neither_counterexample:
  "decode (JObj [(''jsonrpc'', JStr ''2.0''), (''id'', JInt 2)]) = Inr (Val '''' JNull)"
  by simp

text \<open>
  Claim C9 as amended, for a body that is a JSON object. A body with an \<^verbatim>\<open>error\<close> field
  yields the error outcome carrying that field, whether or not it also has a \<^verbatim>\<open>result\<close>.
  A body with neither yields a success with empty text and no structured payload. A
  body with a \<^verbatim>\<open>result\<close> only, whose \<^verbatim>\<open>content\<close> is a list of accepted entries, yields a
  success whose text is the newline-join, in the order returned, of the texts of exactly
  the entries whose \<^verbatim>\<open>type\<close> is \<^verbatim>\<open>"text"\<close>, and whose structured payload is the
  \<^verbatim>\<open>structuredContent\<close> of the result, unchanged (\<^verbatim>\<open>None\<close> when absent).
\<close>

theorem decode_outcomes:
  "(\<forall>e. map_of kvs ''error'' = Some e \<longrightarrow>
        decode (JObj kvs) = Inr (Tup (JObj [(''error'', e)]) 500))
 \<and> (map_of kvs ''error'' = None \<and> map_of kvs ''result'' = None \<longrightarrow>
        decode (JObj kvs) = Inr (Val '''' JNull))
 \<and> (\<forall>res cs. map_of kvs ''error'' = None \<and> map_of kvs ''result'' = Some (JObj res)
        \<and> map_of res ''content'' = Some (JArr cs) \<and> list_all entry_ok cs \<longrightarrow>
        decode (JObj kvs) =
          Inr (Val (py_join NL (map entry_text (filter is_text_entry cs)))
                   (case map_of res ''structuredContent'' of None \<Rightarrow> JNull | Some sc \<Rightarrow> sc)))"
proof (intro conjI allI impI)
  fix e assume "map_of kvs ''error'' = Some e"
  then show "decode (JObj kvs) = Inr (Tup (JObj [(''error'', e)]) 500)" by simp
next
  assume "map_of kvs ''error'' = None \<and> map_of kvs ''result'' = None"
  then show "decode (JObj kvs) = Inr (Val '''' JNull)" by simp
next
  fix res cs
  assume a: "map_of kvs ''error'' = None \<and> map_of kvs ''result'' = Some (JObj res)
        \<and> map_of res ''content'' = Some (JArr cs) \<and> list_all entry_ok cs"
  then obtain ts where "text_items cs = Inr ts"
      "as_strs ts = Inr (map entry_text (filter is_text_entry cs))"
    using text_items_ok by blast
  with a show "decode (JObj kvs) =
          Inr (Val (py_join NL (map entry_text (filter is_text_entry cs)))
                   (case map_of res ''structuredContent'' of None \<Rightarrow> JNull | Some sc \<Rightarrow> sc))"
    by simp
qed

theorem decode_outcomes_witness:
  "decode (JObj [(''result'', demo_result), (''error'', demo_error)])
     = Inr (Tup (JObj [(''error'', demo_error)]) 500)
   \<and> decode (JObj [(''jsonrpc'', JStr ''2.0'')]) = Inr (Val '''' JNull)
   \<and> decode (JObj [(''result'', demo_result)])
     = Inr (Val (''alpha'' @ NL @ ''beta'') (JObj [(''hits'', JArr [])]))"
  using decode_outcomes [of "[(''result'', demo_result), (''error'', demo_error)]"]
    decode_outcomes [of "[(''jsonrpc'', JStr ''2.0'')]"]
    decode_outcomes [of "[(''result'', demo_result)]"]
  by (simp add: demo_result_def is_text_entry_obj entry_text_obj)

section \<open>Defaults of the request body\<close>

text \<open>
  Claim C10 says that a non-object request body is treated like an empty one and gets
  the 400 response. That holds only for a body that is false in Python's sense
  (\<^verbatim>\<open>null\<close>, \<^verbatim>\<open>{}\<close>, \<^verbatim>\<open>[]\<close>, \<^verbatim>\<open>""\<close>, 0, \<^verbatim>\<open>false\<close>), which line 107 replaces by \<^verbatim>\<open>{}\<close>.
  A non-empty list has no \<^verbatim>\<open>get\<close>: line 108 raises, and the route does not return 400.
\<close>

theorem search_non_object_body_counterexample:
  "search demo_pstr demo_pct demo_cfg unreachable_upstream (JArr [JInt 1]) initial
     = (Inl DuckTypeError, initial)"
  by (simp add: search_def)

text \<open>
  Claim C10 as amended. When the body of a \<^verbatim>\<open>POST /search\<close> has a non-empty \<^verbatim>\<open>query\<close>
  and no \<^verbatim>\<open>k\<close>, and a session can be obtained, the first tool call posted is
  \<^verbatim>\<open>dir2mcp.search\<close> with \<^verbatim>\<open>k = 3\<close>. The \<^verbatim>\<open>/ask\<close> route posts \<^verbatim>\<open>dir2mcp.search\<close> with
  \<^verbatim>\<open>k = 3\<close> whatever else the body holds. A request body that is false in Python's sense
  (\<^verbatim>\<open>null\<close> among them) is treated as an empty body: both routes answer 400 with their
  missing-field error and leave the state unchanged.
\<close>

theorem default_k_and_empty_body:
  "(\<forall>kvs q sid s1. map_of kvs ''query'' = Some q \<and> truthy q \<and> map_of kvs ''k'' = None
        \<and> ensure_session cfg up s = (Inr sid, s1) \<longrightarrow>
      (\<exists>rest. new_calls s (snd (search pstr pct cfg up (JObj kvs) s))
                = (''dir2mcp.search'', JObj [(''query'', q), (''k'', JInt 3)]) # rest))
 \<and> (\<forall>kvs q sid s1. map_of kvs ''question'' = Some q \<and> truthy q
        \<and> ensure_session cfg up s = (Inr sid, s1) \<longrightarrow>
      (\<exists>rest. new_calls s (snd (ask pstr cfg up (JObj kvs) s))
                = (''dir2mcp.search'', JObj [(''query'', q), (''k'', JInt 3)]) # rest))
 \<and> (\<forall>j. \<not> truthy j \<longrightarrow>
      search pstr pct cfg up j s = (Inr (JObj [(''error'', JStr ''query is required'')], 400), s)
    \<and> ask pstr cfg up j s = (Inr (JObj [(''error'', JStr ''question is required'')], 400), s))"
proof (intro conjI allI impI)
  fix kvs q sid s1
  assume a: "map_of kvs ''query'' = Some q \<and> truthy q \<and> map_of kvs ''k'' = None
        \<and> ensure_session cfg up s = (Inr sid, s1)"
  let ?args = "JObj [(''query'', q), (''k'', JInt 3)]"
  obtain r s2 where call: "call_tool cfg up ''dir2mcp.search'' ?args s = (r, s2)" by fastforce
  with a obtain ys where "sent (snd (search pstr pct cfg up (JObj kvs) s)) = sent s2 @ ys"
    using search_sent [of kvs q cfg up s r s2 pstr pct] by auto
  with a call show "\<exists>rest. new_calls s (snd (search pstr pct cfg up (JObj kvs) s))
                = (''dir2mcp.search'', ?args) # rest"
    using first_call by blast
next
  fix kvs q sid s1
  assume a: "map_of kvs ''question'' = Some q \<and> truthy q
        \<and> ensure_session cfg up s = (Inr sid, s1)"
  let ?args = "JObj [(''query'', q), (''k'', JInt 3)]"
  obtain r s2 where call: "call_tool cfg up ''dir2mcp.search'' ?args s = (r, s2)" by fastforce
  with a obtain ys where "sent (snd (ask pstr cfg up (JObj kvs) s)) = sent s2 @ ys"
    using ask_sent [of kvs q cfg up s r s2 pstr] by auto
  with a call show "\<exists>rest. new_calls s (snd (ask pstr cfg up (JObj kvs) s))
                = (''dir2mcp.search'', ?args) # rest"
    using first_call by blast
next
  fix j assume "\<not> truthy j"
  then show "search pstr pct cfg up j s = (Inr (JObj [(''error'', JStr ''query is required'')], 400), s)"
    by (simp add: search_def)
next
  fix j assume "\<not> truthy j"
  then show "ask pstr cfg up j s = (Inr (JObj [(''error'', JStr ''question is required'')], 400), s)"
    by (simp add: ask_def)
qed

theorem default_k_and_empty_body_witness:
  "new_calls initial (snd (search demo_pstr demo_pct demo_cfg search_error_upstream
       (JObj [(''query'', JStr ''foo'')]) initial))
     = [(''dir2mcp.search'', JObj [(''query'', JStr ''foo''), (''k'', JInt 3)])]
   \<and> new_calls initial (snd (ask demo_pstr demo_cfg search_error_upstream
       (JObj [(''question'', JStr ''foo''), (''k'', JInt 7)]) initial))
     = [(''dir2mcp.search'', JObj [(''query'', JStr ''foo''), (''k'', JInt 3)])]
   \<and> search demo_pstr demo_pct demo_cfg search_error_upstream JNull initial
     = (Inr (JObj [(''error'', JStr ''query is required'')], 400), initial)
   \<and> ask demo_pstr demo_cfg search_error_upstream JNull initial
     = (Inr (JObj [(''error'', JStr ''question is required'')], 400), initial)"
  using default_k_and_empty_body
          [where cfg = demo_cfg and up = search_error_upstream and s = initial
             and pstr = demo_pstr and pct = demo_pct]
  by (simp add: search_def ask_def call_tool_def ensure_session_def initial_def next_id_def
        post_def search_error_upstream_def raise_for_status_def header_get_def Let_def
        tool_response_def new_calls_def demo_error_def)

end
